theory Spec2Isabelle
  imports Main
begin

section \<open>The alarm clock of src/src/App.tsx\<close>

text \<open>
  A shallow embedding of the React component \<^verbatim>\<open>App\<close>: the state it keeps
  (\<^verbatim>\<open>alarm\<close>, \<^verbatim>\<open>isRinging\<close>, \<^verbatim>\<open>currentTime\<close> and the three audio refs), the
  initialiser that reads localStorage, the effect that writes it, the effect that
  checks the alarm, the click handlers and \<^verbatim>\<open>getTimeUntilAlarm\<close>.

  Conventions.
  \<^item> A JavaScript number that the program uses is an integer here (\<open>int\<close>): clock
    values are milliseconds since the epoch, and every operation of the program on
    them is exact on doubles while the values stay inside the range of \<^verbatim>\<open>Date\<close>.
    \<^verbatim>\<open>NaN\<close> is modelled where the program can produce it.
  \<^item> A string is a list of 8-bit code units (\<open>string\<close>). A JavaScript string
    with a code unit above 255 has no counterpart; where the program could produce
    one, the model answers \<open>Outside\<close> instead of inventing a value.
  \<^item> Local time is UTC plus a fixed offset \<open>tz\<close> in milliseconds; a change of
    the offset during the run (daylight saving) is not modelled.
  \<^item> An exception is a value: a function that can throw returns an \<open>outcome\<close>.
\<close>

subsection \<open>Results\<close>

datatype error =
    SyntaxError   \<comment> \<open>thrown by \<^verbatim>\<open>JSON.parse\<close>\<close>
  | AudioError    \<comment> \<open>thrown by \<^verbatim>\<open>new (window.AudioContext || ...webkitAudioContext)()\<close>\<close>

text \<open>
  \<open>Returned s\<close>: the function ran to its end with state \<open>s\<close>.
  \<open>Raised e s\<close>: it threw \<open>e\<close>; \<open>s\<close> records the state updates it had requested
  before the throw. Nothing in App.tsx catches an exception. A setter only queues its
  update: what React does with the queue after an uncaught error in an effect is not
  modelled, and \<open>s\<close> is not a state the component is then in.
\<close>

datatype 'a outcome = Returned 'a | Raised error 'a

text \<open>The exception that leaves the function, if any.\<close>

fun raised :: "'a outcome \<Rightarrow> error option" where
  "raised (Returned s) = None"
| "raised (Raised e s) = Some e"

text \<open>\<open>Outside\<close>: the input leaves the fragment of JavaScript this theory models.\<close>

datatype 'a modelled = Known 'a | Outside

subsection \<open>Numbers and strings\<close>

text \<open>
  A number as \<^verbatim>\<open>getTimeUntilAlarm\<close> meets it: an integer, \<^verbatim>\<open>NaN\<close>, or a value that
  this theory does not compute (\<open>Unmodelled\<close>).
\<close>

datatype jsnum = Num int | NaN | Unmodelled

definition digit_char :: "nat \<Rightarrow> char" where
  "digit_char d = char_of (48 + d)"

function string_of_nat :: "nat \<Rightarrow> string" where
  "string_of_nat n =
     (if n < 10 then [digit_char n] else string_of_nat (n div 10) @ [digit_char (n mod 10)])"
  by pat_completeness auto
termination
  by (relation "measure id") auto

declare string_of_nat.simps [simp del]

text \<open>\<^verbatim>\<open>String(n)\<close> and \<^verbatim>\<open>`${n}`\<close> for an integer \<open>n\<close> (below \<open>10^21\<close> in magnitude).\<close>

definition String_int :: "int \<Rightarrow> string" where
  "String_int i = (if i < 0 then CHR ''-'' # string_of_nat (nat (- i)) else string_of_nat (nat i))"

text \<open>\<^verbatim>\<open>s.padStart(n, c)\<close> for a one-character pad string.\<close>

definition padStart :: "nat \<Rightarrow> char \<Rightarrow> string \<Rightarrow> string" where
  "padStart n c s = replicate (n - length s) c @ s"

text \<open>\<^verbatim>\<open>s.split(d)\<close> for a one-character separator: never the empty list.\<close>

fun split :: "char \<Rightarrow> string \<Rightarrow> string list" where
  "split d [] = [[]]"
| "split d (c # cs) =
     (if c = d then [] # split d cs
      else (case split d cs of [] \<Rightarrow> [[c]] | w # ws \<Rightarrow> (c # w) # ws))"

definition is_digit :: "char \<Rightarrow> bool" where
  "is_digit c = (48 \<le> (of_char c :: nat) \<and> (of_char c :: nat) \<le> 57)"

definition digit_val :: "char \<Rightarrow> nat" where
  "digit_val c = of_char c - 48"

fun all_digits :: "string \<Rightarrow> bool" where
  "all_digits [] = True"
| "all_digits (c # cs) = (is_digit c \<and> all_digits cs)"

definition nat_of_digits :: "string \<Rightarrow> nat" where
  "nat_of_digits s = foldl (\<lambda>a c. 10 * a + digit_val c) 0 s"

text \<open>
  \<^verbatim>\<open>Number(s)\<close> on a string. The empty string is 0 and a string of at most 15 decimal
  digits is its value (exact as a double). Every other string (white space, signs,
  fractions, exponents, hex, \<^verbatim>\<open>Infinity\<close>, or a string that is no number and gives
  \<^verbatim>\<open>NaN\<close>) is left to \<open>Unmodelled\<close>.
\<close>

definition Number_str :: "string \<Rightarrow> jsnum" where
  "Number_str s =
     (if s = [] then Num 0
      else if all_digits s \<and> length s \<le> 15 then Num (int (nat_of_digits s))
      else Unmodelled)"

subsection \<open>Dates\<close>

definition msPerSecond :: int where "msPerSecond = 1000"
definition msPerMinute :: int where "msPerMinute = 60000"
definition msPerHour :: int where "msPerHour = 3600000"
definition msPerDay :: int where "msPerDay = 86400000"

text \<open>A \<^verbatim>\<open>Date\<close> is its time value: milliseconds since the epoch, UTC.\<close>

definition LocalTime :: "int \<Rightarrow> int \<Rightarrow> int" where
  "LocalTime tz t = t + tz"

definition getHours :: "int \<Rightarrow> int \<Rightarrow> int" where
  "getHours tz t = (LocalTime tz t div msPerHour) mod 24"

definition getMinutes :: "int \<Rightarrow> int \<Rightarrow> int" where
  "getMinutes tz t = (LocalTime tz t div msPerMinute) mod 60"

definition getSeconds :: "int \<Rightarrow> int \<Rightarrow> int" where
  "getSeconds tz t = (LocalTime tz t div msPerSecond) mod 60"

definition getMilliseconds :: "int \<Rightarrow> int \<Rightarrow> int" where
  "getMilliseconds tz t = LocalTime tz t mod msPerSecond"

text \<open>
  \<^verbatim>\<open>d.setHours(h, m, 0, 0)\<close>: the local day of \<open>d\<close> is kept and the time within
  the day replaced (\<^verbatim>\<open>MakeDate(Day(t), MakeTime(h, m, 0, 0))\<close>); the date is invalid
  (\<open>NaN\<close>) when an argument is \<open>NaN\<close>.
\<close>

definition setHours :: "int \<Rightarrow> int \<Rightarrow> jsnum \<Rightarrow> jsnum \<Rightarrow> jsnum" where
  "setHours tz t h m =
     (case h of
        Unmodelled \<Rightarrow> Unmodelled
      | NaN \<Rightarrow> (case m of Unmodelled \<Rightarrow> Unmodelled | _ \<Rightarrow> NaN)
      | Num hh \<Rightarrow>
          (case m of
             Unmodelled \<Rightarrow> Unmodelled
           | NaN \<Rightarrow> NaN
           | Num mm \<Rightarrow>
               Num ((LocalTime tz t div msPerDay) * msPerDay + hh * msPerHour + mm * msPerMinute - tz)))"

text \<open>
  \<^verbatim>\<open>d.setDate(d.getDate() + 1)\<close>: the same local time of day on the next day. With a
  fixed offset that is one day later.
\<close>

definition setDate_next :: "int \<Rightarrow> int" where
  "setDate_next t = t + msPerDay"

text \<open>\<^verbatim>\<open>a % n\<close> on integers: the remainder has the sign of the dividend.\<close>

definition js_rem :: "int \<Rightarrow> int \<Rightarrow> int" where
  "js_rem a n = sgn a * (\<bar>a\<bar> mod \<bar>n\<bar>)"

text \<open>\<^verbatim>\<open>Math.ceil(a / n)\<close> and \<^verbatim>\<open>Math.floor(a / n)\<close> for integers \<open>a\<close> and \<open>n > 0\<close>.\<close>

definition ceil_div :: "int \<Rightarrow> int \<Rightarrow> int" where
  "ceil_div a n = - ((- a) div n)"

definition floor_div :: "int \<Rightarrow> int \<Rightarrow> int" where
  "floor_div a n = a div n"

subsection \<open>The state of the component\<close>

text \<open>\<^verbatim>\<open>interface AlarmState\<close>, lines 3 to 8.\<close>

record AlarmState =
  time :: string
  enabled :: bool
  snoozed :: bool
  snoozeUntil :: "int option"

definition SNOOZE_DURATION :: int where
  "SNOOZE_DURATION = 5 * 60 * 1000"

datatype AudioContext = AudioContext_new
datatype OscillatorNode = Oscillator_started
datatype GainNode = Gain_connected

record AppState =
  currentTime :: int
  alarm :: AlarmState
  isRinging :: bool
  audioContextRef :: "AudioContext option"
  oscillatorRef :: "OscillatorNode option"
  gainRef :: "GainNode option"

text \<open>The truth value of \<^verbatim>\<open>alarm.snoozeUntil\<close> (\<^verbatim>\<open>number | null\<close>) in a condition.\<close>

definition truthy :: "int option \<Rightarrow> bool" where
  "truthy v = (case v of None \<Rightarrow> False | Some n \<Rightarrow> n \<noteq> 0)"

subsection \<open>The alert sound (lines 42 to 95)\<close>

text \<open>
  \<open>audioOK\<close> says whether the browser can construct an \<^verbatim>\<open>AudioContext\<close>. The
  constructor call is the first statement after the guard, and the ref is assigned
  right after it; the oscillator is started before its ref is assigned.
\<close>

definition startAlarmSound :: "bool \<Rightarrow> AppState \<Rightarrow> AppState outcome" where
  "startAlarmSound audioOK s =
     (if audioContextRef s \<noteq> None then Returned s
      else if \<not> audioOK then Raised AudioError s
      else Returned (s\<lparr>audioContextRef := Some AudioContext_new,
                       oscillatorRef := Some Oscillator_started,
                       gainRef := Some Gain_connected\<rparr>))"

definition stopAlarmSound :: "AppState \<Rightarrow> AppState" where
  "stopAlarmSound s = s\<lparr>oscillatorRef := None, audioContextRef := None, gainRef := None\<rparr>"

subsection \<open>The alarm check (lines 98 to 119)\<close>

definition currentTimeStr :: "int \<Rightarrow> int \<Rightarrow> string" where
  "currentTimeStr tz now =
     padStart 2 CHR ''0'' (String_int (getHours tz now)) @ '':'' @
     padStart 2 CHR ''0'' (String_int (getMinutes tz now))"

text \<open>
  One run of the effect. \<open>dateNow\<close> is what \<^verbatim>\<open>Date.now()\<close> returns during the run;
  \<open>currentTime s\<close> is the \<^verbatim>\<open>Date\<close> the interval stored last.
\<close>

definition checkAlarm :: "bool \<Rightarrow> int \<Rightarrow> int \<Rightarrow> AppState \<Rightarrow> AppState outcome" where
  "checkAlarm audioOK tz dateNow s =
     (if \<not> enabled (alarm s) \<or> isRinging s then Returned s
      else
        let now = currentTime s in
        if snoozed (alarm s) \<and> truthy (snoozeUntil (alarm s)) then
          (case snoozeUntil (alarm s) of
             None \<Rightarrow> Returned s
           | Some u \<Rightarrow>
               if dateNow \<ge> u then
                 startAlarmSound audioOK
                   (s\<lparr>alarm := (alarm s)\<lparr>snoozed := False, snoozeUntil := None\<rparr>,
                      isRinging := True\<rparr>)
               else Returned s)
        else if currentTimeStr tz now = time (alarm s) \<and> getSeconds tz now = 0
                \<and> \<not> snoozed (alarm s) then
          startAlarmSound audioOK (s\<lparr>isRinging := True\<rparr>)
        else Returned s)"

text \<open>The interval callback (lines 34 to 39) followed by the effect it triggers.\<close>

definition tick :: "bool \<Rightarrow> int \<Rightarrow> int \<Rightarrow> int \<Rightarrow> AppState \<Rightarrow> AppState outcome" where
  "tick audioOK tz newDate dateNow s = checkAlarm audioOK tz dateNow (s\<lparr>currentTime := newDate\<rparr>)"

subsection \<open>The handlers (lines 121 to 144)\<close>

definition handleDismiss :: "AppState \<Rightarrow> AppState" where
  "handleDismiss s =
     (let s1 = s\<lparr>isRinging := False\<rparr>;
          s2 = stopAlarmSound s1
      in s2\<lparr>alarm := (alarm s2)\<lparr>enabled := False, snoozed := False, snoozeUntil := None\<rparr>\<rparr>)"

definition handleSnooze :: "int \<Rightarrow> AppState \<Rightarrow> AppState" where
  "handleSnooze dateNow s =
     (let s1 = s\<lparr>isRinging := False\<rparr>;
          s2 = stopAlarmSound s1
      in s2\<lparr>alarm := (alarm s2)\<lparr>snoozed := True,
                                  snoozeUntil := Some (dateNow + SNOOZE_DURATION)\<rparr>\<rparr>)"




definition toggleAlarm :: "AppState \<Rightarrow> AppState" where
  "toggleAlarm s =
     s\<lparr>alarm := (alarm s)\<lparr>enabled := \<not> enabled (alarm s), snoozed := False, snoozeUntil := None\<rparr>\<rparr>"

subsection \<open>The time until the alarm (lines 158 to 187)\<close>

text \<open>
  Lines 179 to 186: the text for a difference \<open>diff\<close> of two valid dates, in
  milliseconds.
\<close>

definition formatRemaining :: "int \<Rightarrow> string" where
  "formatRemaining diff =
     (let hours = floor_div diff (1000 * 60 * 60);
          minutes = floor_div (js_rem diff (1000 * 60 * 60)) (1000 * 60)
      in if hours > 0 then ''in '' @ String_int hours @ ''h '' @ String_int minutes @ ''m''
         else ''in '' @ String_int minutes @ ''m'')"

text \<open>
  The function reads the state and \<^verbatim>\<open>Date.now()\<close> and calls no setter: its model has
  no state to return. \<open>None\<close> is \<^verbatim>\<open>null\<close>. A missing second part of the split leaves
  \<^verbatim>\<open>alarmMinutes\<close> undefined, which \<^verbatim>\<open>setHours\<close> converts to \<^verbatim>\<open>NaN\<close>; an invalid date
  compares false with \<^verbatim>\<open><=\<close> and gives the differences \<^verbatim>\<open>NaN\<close>.
\<close>

definition getTimeUntilAlarm :: "int \<Rightarrow> int \<Rightarrow> AppState \<Rightarrow> string option modelled" where
  "getTimeUntilAlarm tz dateNow s =
     (if \<not> enabled (alarm s) then Known None
      else
        let now = currentTime s;
            parts = map Number_str (split CHR '':'' (time (alarm s)));
            alarmHours = (case parts of [] \<Rightarrow> NaN | h # _ \<Rightarrow> h);
            alarmMinutes = (case parts of h # m # _ \<Rightarrow> m | _ \<Rightarrow> NaN);
            alarmDate0 = setHours tz now alarmHours alarmMinutes;
            alarmDate = (case alarmDate0 of
                           Num a \<Rightarrow> if a \<le> now then Num (setDate_next a) else Num a
                         | d \<Rightarrow> d);
            fallThrough =
              (case alarmDate of
                 Unmodelled \<Rightarrow> Outside
               | NaN \<Rightarrow> Known (Some ''in NaNm'')
               | Num a \<Rightarrow> Known (Some (formatRemaining (a - now))))
        in
          if snoozed (alarm s) \<and> truthy (snoozeUntil (alarm s)) then
            (case snoozeUntil (alarm s) of
               None \<Rightarrow> fallThrough
             | Some u \<Rightarrow>
                 let diff = u - dateNow in
                 if diff > 0 then
                   Known (Some (''Snooze: '' @ String_int (ceil_div diff 60000) @ ''m''))
                 else fallThrough)
          else fallThrough)"

text \<open>A well-formed configured time: two digits, a colon, two digits.\<close>

definition HHMM :: "nat \<Rightarrow> nat \<Rightarrow> string" where
  "HHMM hh mm =
     [digit_char (hh div 10), digit_char (hh mod 10), CHR '':'',
      digit_char (mm div 10), digit_char (mm mod 10)]"

text \<open>
  The instant \<open>a\<close> is an occurrence of the local time of day \<open>hh:mm:00.000\<close>, after
  \<open>now\<close> and at most a day after it: the next future occurrence.
\<close>

definition nextOccurrence :: "int \<Rightarrow> int \<Rightarrow> nat \<Rightarrow> nat \<Rightarrow> int \<Rightarrow> bool" where
  "nextOccurrence tz now hh mm a =
     (now < a \<and> a \<le> now + msPerDay \<and>
      getHours tz a = int hh \<and> getMinutes tz a = int mm \<and>
      getSeconds tz a = 0 \<and> getMilliseconds tz a = 0)"

subsection \<open>JSON texts\<close>

text \<open>
  \<^verbatim>\<open>JSON.parse\<close> and \<^verbatim>\<open>JSON.stringify\<close> belong to the language, not to App.tsx. They are
  modelled after ECMA-404 and the ECMAScript definition of the two functions, on
  strings of 8-bit code units. A number keeps its lexeme: no claim reads its value.
  An object keeps its members in the order of the text; of two members with one key
  the later one counts (see \<open>get_prop\<close>).
\<close>

datatype json =
    JNull
  | JBool bool
  | JNumber string
  | JString string
  | JArray "json list"
  | JObject "(string \<times> json) list"

datatype token =
    TLBrace | TRBrace | TLBrack | TRBrack | TColon | TComma
  | TString string | TNumber string | TTrue | TFalse | TNull

definition dquote :: char where "dquote = CHR 0x22"
definition backslash :: char where "backslash = CHR 0x5C"

definition is_ws :: "char \<Rightarrow> bool" where
  "is_ws c = (c = CHR '' '' \<or> c = CHR 0x09 \<or> c = CHR 0x0A \<or> c = CHR 0x0D)"

definition is_lower :: "char \<Rightarrow> bool" where
  "is_lower c = (97 \<le> (of_char c :: nat) \<and> (of_char c :: nat) \<le> 122)"

definition is_num_char :: "char \<Rightarrow> bool" where
  "is_num_char c =
     (is_digit c \<or> c = CHR ''-'' \<or> c = CHR ''+'' \<or> c = CHR ''.'' \<or> c = CHR ''e'' \<or> c = CHR ''E'')"

definition hex_val :: "char \<Rightarrow> nat option" where
  "hex_val c =
     (let n = (of_char c :: nat) in
      if 48 \<le> n \<and> n \<le> 57 then Some (n - 48)
      else if 97 \<le> n \<and> n \<le> 102 then Some (n - 87)
      else if 65 \<le> n \<and> n \<le> 70 then Some (n - 55)
      else None)"

text \<open>The grammar of a JSON number: \<^verbatim>\<open>-? (0 | [1-9][0-9]*) (. [0-9]+)? ([eE] [+-]? [0-9]+)?\<close>.\<close>

definition valid_exp :: "string \<Rightarrow> bool" where
  "valid_exp r =
     (case r of
        [] \<Rightarrow> True
      | c # r' \<Rightarrow>
          (c = CHR ''e'' \<or> c = CHR ''E'') \<and>
          (let ds = (case r' of
                       [] \<Rightarrow> []
                     | g # r'' \<Rightarrow> if g = CHR ''+'' \<or> g = CHR ''-'' then r'' else r')
           in ds \<noteq> [] \<and> all_digits ds))"

definition valid_frac :: "string \<Rightarrow> bool" where
  "valid_frac r =
     (case r of
        [] \<Rightarrow> True
      | c # r' \<Rightarrow>
          if c = CHR ''.'' then takeWhile is_digit r' \<noteq> [] \<and> valid_exp (dropWhile is_digit r')
          else valid_exp r)"

definition valid_number :: "string \<Rightarrow> bool" where
  "valid_number s =
     (let s1 = (case s of [] \<Rightarrow> [] | c # r \<Rightarrow> if c = CHR ''-'' then r else s);
          ds = takeWhile is_digit s1
      in (case ds of
            [] \<Rightarrow> False
          | d # ds' \<Rightarrow> (if d = CHR ''0'' then ds' = [] else True)) \<and>
         valid_frac (dropWhile is_digit s1))"

text \<open>
  The scanner reads the text once, left to right. Its mode says what it is inside of;
  strings, numbers and literal names are collected in reverse.
\<close>

datatype lexmode =
    Top
  | InString string
  | Esc string
  | Uni string "nat list"
  | InNum string
  | InWord string

datatype lexstep = Go lexmode "token list" | Bad | Wide

definition finish_num :: "string \<Rightarrow> token option" where
  "finish_num n = (if valid_number (rev n) then Some (TNumber (rev n)) else None)"

definition finish_word :: "string \<Rightarrow> token option" where
  "finish_word w =
     (if rev w = ''true'' then Some TTrue
      else if rev w = ''false'' then Some TFalse
      else if rev w = ''null'' then Some TNull
      else None)"

definition step_top :: "char \<Rightarrow> lexstep" where
  "step_top c =
     (if is_ws c then Go Top []
      else if c = CHR ''{'' then Go Top [TLBrace]
      else if c = CHR ''}'' then Go Top [TRBrace]
      else if c = CHR ''['' then Go Top [TLBrack]
      else if c = CHR '']'' then Go Top [TRBrack]
      else if c = CHR '':'' then Go Top [TColon]
      else if c = CHR '','' then Go Top [TComma]
      else if c = dquote then Go (InString []) []
      else if c = CHR ''-'' \<or> is_digit c then Go (InNum [c]) []
      else if is_lower c then Go (InWord [c]) []
      else Bad)"

definition after_token :: "token option \<Rightarrow> char \<Rightarrow> lexstep" where
  "after_token t c =
     (case t of
        None \<Rightarrow> Bad
      | Some tok \<Rightarrow> (case step_top c of Go m out \<Rightarrow> Go m (tok # out) | Bad \<Rightarrow> Bad | Wide \<Rightarrow> Wide))"

text \<open>
  An escape of four hex digits with a value above 255 names a code unit that an 8-bit
  string cannot hold: the step is \<open>Wide\<close>.
\<close>

definition step_lex :: "lexmode \<Rightarrow> char \<Rightarrow> lexstep" where
  "step_lex m c =
     (case m of
        Top \<Rightarrow> step_top c
      | InString acc \<Rightarrow>
          if c = dquote then Go Top [TString (rev acc)]
          else if c = backslash then Go (Esc acc) []
          else if (of_char c :: nat) < 32 then Bad
          else Go (InString (c # acc)) []
      | Esc acc \<Rightarrow>
          if c = dquote then Go (InString (dquote # acc)) []
          else if c = backslash then Go (InString (backslash # acc)) []
          else if c = CHR ''/'' then Go (InString (CHR ''/'' # acc)) []
          else if c = CHR ''b'' then Go (InString (CHR 0x08 # acc)) []
          else if c = CHR ''f'' then Go (InString (CHR 0x0C # acc)) []
          else if c = CHR ''n'' then Go (InString (CHR 0x0A # acc)) []
          else if c = CHR ''r'' then Go (InString (CHR 0x0D # acc)) []
          else if c = CHR ''t'' then Go (InString (CHR 0x09 # acc)) []
          else if c = CHR ''u'' then Go (Uni acc []) []
          else Bad
      | Uni acc hs \<Rightarrow>
          (case hex_val c of
             None \<Rightarrow> Bad
           | Some h \<Rightarrow>
               if length hs < 3 then Go (Uni acc (hs @ [h])) []
               else
                 let v = foldl (\<lambda>a d. 16 * a + d) 0 (hs @ [h])
                 in if v < 256 then Go (InString (char_of v # acc)) [] else Wide)
      | InNum n \<Rightarrow> if is_num_char c then Go (InNum (c # n)) [] else after_token (finish_num n) c
      | InWord w \<Rightarrow> if is_lower c then Go (InWord (c # w)) [] else after_token (finish_word w) c)"

datatype lexres = Tokens "token list" | LexError | LexOutside

definition finish_lex :: "lexmode \<Rightarrow> lexres" where
  "finish_lex m =
     (case m of
        Top \<Rightarrow> Tokens []
      | InNum n \<Rightarrow> (case finish_num n of None \<Rightarrow> LexError | Some t \<Rightarrow> Tokens [t])
      | InWord w \<Rightarrow> (case finish_word w of None \<Rightarrow> LexError | Some t \<Rightarrow> Tokens [t])
      | _ \<Rightarrow> LexError)"

fun lex :: "lexmode \<Rightarrow> string \<Rightarrow> lexres" where
  "lex m [] = finish_lex m"
| "lex m (c # cs) =
     (case step_lex m c of
        Bad \<Rightarrow> LexError
      | Wide \<Rightarrow> LexOutside
      | Go m' out \<Rightarrow>
          (case lex m' cs of Tokens ts \<Rightarrow> Tokens (out @ ts) | LexError \<Rightarrow> LexError
           | LexOutside \<Rightarrow> LexOutside))"

declare lex.simps [simp del]

text \<open>
  The parser reads the tokens once, with the containers that are still open on a stack
  (elements and members in reverse).
\<close>

datatype frame =
    FArr "json list"
  | FObjK "(string \<times> json) list"
  | FObjV "(string \<times> json) list" string

datatype expect = EValue | EArrFirst | EObjFirst | EKey | EColon | EAfter | EDone json

definition push_value :: "json \<Rightarrow> frame list \<Rightarrow> (expect \<times> frame list) option" where
  "push_value v st =
     (case st of
        [] \<Rightarrow> Some (EDone v, [])
      | FArr xs # st' \<Rightarrow> Some (EAfter, FArr (v # xs) # st')
      | FObjV ps k # st' \<Rightarrow> Some (EAfter, FObjK ((k, v) # ps) # st')
      | FObjK ps # st' \<Rightarrow> None)"

definition start_value :: "token \<Rightarrow> frame list \<Rightarrow> (expect \<times> frame list) option" where
  "start_value t st =
     (case t of
        TString s \<Rightarrow> push_value (JString s) st
      | TNumber n \<Rightarrow> push_value (JNumber n) st
      | TTrue \<Rightarrow> push_value (JBool True) st
      | TFalse \<Rightarrow> push_value (JBool False) st
      | TNull \<Rightarrow> push_value JNull st
      | TLBrack \<Rightarrow> Some (EArrFirst, FArr [] # st)
      | TLBrace \<Rightarrow> Some (EObjFirst, FObjK [] # st)
      | _ \<Rightarrow> None)"

definition take_key :: "token \<Rightarrow> frame list \<Rightarrow> (expect \<times> frame list) option" where
  "take_key t st =
     (case (t, st) of
        (TString k, FObjK ps # st') \<Rightarrow> Some (EColon, FObjV ps k # st')
      | _ \<Rightarrow> None)"

definition close_or_comma :: "token \<Rightarrow> frame list \<Rightarrow> (expect \<times> frame list) option" where
  "close_or_comma t st =
     (case st of
        FArr xs # st' \<Rightarrow>
          (case t of
             TComma \<Rightarrow> Some (EValue, st)
           | TRBrack \<Rightarrow> push_value (JArray (rev xs)) st'
           | _ \<Rightarrow> None)
      | FObjK ps # st' \<Rightarrow>
          (case t of
             TComma \<Rightarrow> Some (EKey, st)
           | TRBrace \<Rightarrow> push_value (JObject (rev ps)) st'
           | _ \<Rightarrow> None)
      | _ \<Rightarrow> None)"

definition pstep :: "expect \<times> frame list \<Rightarrow> token \<Rightarrow> (expect \<times> frame list) option" where
  "pstep p t =
     (case p of
        (EValue, st) \<Rightarrow> start_value t st
      | (EArrFirst, st) \<Rightarrow>
          (case (t, st) of
             (TRBrack, FArr xs # st') \<Rightarrow> push_value (JArray []) st'
           | _ \<Rightarrow> start_value t st)
      | (EObjFirst, st) \<Rightarrow>
          (case (t, st) of
             (TRBrace, FObjK ps # st') \<Rightarrow> push_value (JObject []) st'
           | _ \<Rightarrow> take_key t st)
      | (EKey, st) \<Rightarrow> take_key t st
      | (EColon, st) \<Rightarrow> (case t of TColon \<Rightarrow> Some (EValue, st) | _ \<Rightarrow> None)
      | (EAfter, st) \<Rightarrow> close_or_comma t st
      | (EDone v, st) \<Rightarrow> None)"

fun parse_tokens :: "expect \<times> frame list \<Rightarrow> token list \<Rightarrow> json option" where
  "parse_tokens p [] = (case p of (EDone v, []) \<Rightarrow> Some v | _ \<Rightarrow> None)"
| "parse_tokens p (t # ts) =
     (case pstep p t of None \<Rightarrow> None | Some p' \<Rightarrow> parse_tokens p' ts)"

text \<open>
  \<^verbatim>\<open>JSON.parse(s)\<close>: \<open>Known None\<close> is the \<^verbatim>\<open>SyntaxError\<close>; \<open>Outside\<close> is a text with
  an escape that an 8-bit string cannot hold.
\<close>

definition JSON_parse :: "string \<Rightarrow> json option modelled" where
  "JSON_parse s =
     (case lex Top s of
        LexOutside \<Rightarrow> Outside
      | LexError \<Rightarrow> Known None
      | Tokens ts \<Rightarrow> Known (parse_tokens (EValue, []) ts))"

text \<open>\<^verbatim>\<open>JSON.stringify\<close> of a string (\<^verbatim>\<open>QuoteJSONString\<close>) for 8-bit code units.\<close>

definition hex_char :: "nat \<Rightarrow> char" where
  "hex_char d = (if d < 10 then char_of (48 + d) else char_of (87 + d))"

definition escape_char :: "char \<Rightarrow> string" where
  "escape_char c =
     (if c = CHR 0x08 then [backslash, CHR ''b'']
      else if c = CHR 0x09 then [backslash, CHR ''t'']
      else if c = CHR 0x0A then [backslash, CHR ''n'']
      else if c = CHR 0x0C then [backslash, CHR ''f'']
      else if c = CHR 0x0D then [backslash, CHR ''r'']
      else if c = dquote then [backslash, dquote]
      else if c = backslash then [backslash, backslash]
      else if (of_char c :: nat) < 32 then
        [backslash, CHR ''u'', CHR ''0'', CHR ''0'',
         hex_char ((of_char c :: nat) div 16), hex_char ((of_char c :: nat) mod 16)]
      else [c])"

definition quote :: "string \<Rightarrow> string" where
  "quote s = dquote # concat (map escape_char s) @ [dquote]"

subsection \<open>Loading and saving the settings (lines 15 to 31)\<close>

text \<open>
  The object that the initialiser returns has whatever properties the stored text
  gives it: nothing checks them against \<^verbatim>\<open>interface AlarmState\<close>. It is modelled as the
  list of its properties, later entries overriding earlier ones.
\<close>

type_synonym jsobject = "(string \<times> json) list"

definition get_prop :: "jsobject \<Rightarrow> string \<Rightarrow> json option" where
  "get_prop obj k = map_of (rev obj) k"

text \<open>The own enumerable properties that \<^verbatim>\<open>{...v}\<close> copies from a parsed value.\<close>

definition spread :: "json \<Rightarrow> jsobject" where
  "spread v =
     (case v of
        JObject ps \<Rightarrow> ps
      | JArray xs \<Rightarrow> zip (map string_of_nat [0..<length xs]) xs
      | JString s \<Rightarrow> zip (map string_of_nat [0..<length s]) (map (\<lambda>c. JString [c]) s)
      | _ \<Rightarrow> [])"

definition default_alarm :: jsobject where
  "default_alarm =
     [(''time'', JString ''07:00''), (''enabled'', JBool False),
      (''snoozed'', JBool False), (''snoozeUntil'', JNull)]"

text \<open>
  The initialiser of \<^verbatim>\<open>alarm\<close>, lines 15 to 22. \<open>saved\<close> is what
  \<^verbatim>\<open>localStorage.getItem\<close> returns: \<open>None\<close> for \<^verbatim>\<open>null\<close>. The empty string is falsy.
\<close>

definition load :: "string option \<Rightarrow> (error + jsobject) modelled" where
  "load saved =
     (case saved of
        None \<Rightarrow> Known (Inr default_alarm)
      | Some s \<Rightarrow>
          if s = [] then Known (Inr default_alarm)
          else
            (case JSON_parse s of
               Outside \<Rightarrow> Outside
             | Known None \<Rightarrow> Known (Inl SyntaxError)
             | Known (Some parsed) \<Rightarrow>
                 Known (Inr (spread parsed @ [(''snoozed'', JBool False), (''snoozeUntil'', JNull)]))))"

text \<open>
  The object seen through \<^verbatim>\<open>interface AlarmState\<close>: defined when \<open>time\<close> is a
  string, \<open>enabled\<close> and \<open>snoozed\<close> are booleans and \<open>snoozeUntil\<close> is
  \<^verbatim>\<open>null\<close> (the initialiser never leaves a number there).
\<close>

definition as_AlarmState :: "jsobject \<Rightarrow> AlarmState option" where
  "as_AlarmState obj =
     (case (get_prop obj ''time'', get_prop obj ''enabled'', get_prop obj ''snoozed'', get_prop obj ''snoozeUntil'') of
        (Some (JString t), Some (JBool e), Some (JBool z), Some JNull) \<Rightarrow>
          Some \<lparr>time = t, enabled = e, snoozed = z, snoozeUntil = None\<rparr>
      | _ \<Rightarrow> None)"

text \<open>
  The text that the effect of lines 29 to 31 stores:
  \<^verbatim>\<open>JSON.stringify({ time: alarm.time, enabled: alarm.enabled })\<close>.
\<close>

definition save :: "AlarmState \<Rightarrow> string" where
  "save a =
     ''{'' @ quote ''time'' @ '':'' @ quote (time a) @ '','' @
     quote ''enabled'' @ '':'' @ (if enabled a then ''true'' else ''false'') @ ''}''"

subsection \<open>Runs of the component\<close>

fun state_of :: "'a outcome \<Rightarrow> 'a" where
  "state_of (Returned s) = s"
| "state_of (Raised e s) = s"

text \<open>
  What can happen to the component without reconfiguring the alarm: the interval
  fires (with the new \<^verbatim>\<open>Date\<close> and the value of \<^verbatim>\<open>Date.now()\<close> in the effect), or the
  user presses Snooze or Dismiss.
\<close>

datatype event = Tick int int | Snooze int | Dismiss

fun step :: "bool \<Rightarrow> int \<Rightarrow> event \<Rightarrow> AppState \<Rightarrow> AppState outcome" where
  "step audioOK tz (Tick newDate dateNow) s = tick audioOK tz newDate dateNow s"
| "step audioOK tz (Snooze dateNow) s = Returned (handleSnooze dateNow s)"
| "step audioOK tz Dismiss s = Returned (handleDismiss s)"

fun is_Tick :: "event \<Rightarrow> bool" where
  "is_Tick (Tick a b) = True"
| "is_Tick e = False"

text \<open>
  The observation "this run of the effect made the alarm ring by time match": the
  ringing flag goes from false to true in a state that is not snoozed. (A snoozed state
  rings again only through the snooze branch, which needs \<^verbatim>\<open>alarm.snoozed\<close>.)
\<close>

definition ringsByTimeMatch :: "AppState \<Rightarrow> AppState outcome \<Rightarrow> bool" where
  "ringsByTimeMatch s out = (\<not> isRinging s \<and> \<not> snoozed (alarm s) \<and> isRinging (state_of out))"

text \<open>
  The number of events of a run at which the alarm rings by time match. An exception
  ends the run: nothing catches it.
\<close>

fun timeMatchEntries :: "bool \<Rightarrow> int \<Rightarrow> event list \<Rightarrow> AppState \<Rightarrow> nat" where
  "timeMatchEntries audioOK tz [] s = 0"
| "timeMatchEntries audioOK tz (e # es) s =
     (let out = step audioOK tz e s;
          n = (if is_Tick e \<and> ringsByTimeMatch s out then 1 else 0)
      in case out of
           Raised err s' \<Rightarrow> n
         | Returned s' \<Rightarrow> n + timeMatchEntries audioOK tz es s')"

text \<open>A run of interval ticks only, each a pair of the new \<^verbatim>\<open>Date\<close> and \<^verbatim>\<open>Date.now()\<close>.\<close>

fun ticks :: "bool \<Rightarrow> int \<Rightarrow> (int \<times> int) list \<Rightarrow> AppState \<Rightarrow> AppState outcome" where
  "ticks audioOK tz [] s = Returned s"
| "ticks audioOK tz ((newDate, dateNow) # cs) s =
     (case tick audioOK tz newDate dateNow s of
        Raised err s' \<Rightarrow> Raised err s'
      | Returned s' \<Rightarrow> ticks audioOK tz cs s')"

text \<open>
  A state in which the time match cannot fire: ringing, snoozed or disabled. Ticks,
  snooze and dismiss keep the component in such states.
\<close>

definition quiet :: "AppState \<Rightarrow> bool" where
  "quiet s = (isRinging s \<or> snoozed (alarm s) \<or> \<not> enabled (alarm s))"

subsection \<open>States used as examples\<close>

text \<open>Armed for 07:00, at 07:00:00 local time (offset 0) on the first day of the epoch.\<close>

definition armed_at_7 :: AppState where
  "armed_at_7 =
     \<lparr>currentTime = 25200000,
      alarm = \<lparr>time = ''07:00'', enabled = True, snoozed = False, snoozeUntil = None\<rparr>,
      isRinging = False, audioContextRef = None, oscillatorRef = None, gainRef = None\<rparr>"

text \<open>Ringing since 07:00:00, at 07:00:05, with a sound session open.\<close>

definition ringing_at_7 :: AppState where
  "ringing_at_7 =
     \<lparr>currentTime = 25205000,
      alarm = \<lparr>time = ''07:00'', enabled = True, snoozed = False, snoozeUntil = None\<rparr>,
      isRinging = True, audioContextRef = Some AudioContext_new,
      oscillatorRef = Some Oscillator_started, gainRef = Some Gain_connected\<rparr>"

text \<open>Stored texts: the members in another order than \<^verbatim>\<open>save\<close> writes them, and members
  of other types than \<^verbatim>\<open>interface AlarmState\<close> declares.\<close>

definition reordered_payload :: string where
  \<open>reordered_payload = ''{"enabled":false,"time":"07:00"}''\<close>

definition wrong_shape_payload :: string where
  \<open>wrong_shape_payload = ''{"time":7,"enabled":"yes"}''\<close>

text \<open>The alarm fields of a snoozed state.\<close>

definition snoozed_alarm :: AlarmState where
  "snoozed_alarm = \<lparr>time = ''07:00'', enabled = True, snoozed = True, snoozeUntil = Some 25505000\<rparr>"

section \<open>Properties\<close>

subsection \<open>Formatting\<close>

lemma digit_char_simps:
  "digit_char 0 = CHR ''0''" "digit_char 1 = CHR ''1''" "digit_char 2 = CHR ''2''"
  "digit_char 3 = CHR ''3''" "digit_char 4 = CHR ''4''" "digit_char 5 = CHR ''5''"
  "digit_char 6 = CHR ''6''" "digit_char 7 = CHR ''7''" "digit_char 8 = CHR ''8''"
  "digit_char 9 = CHR ''9''"
  by code_simp+

lemma string_of_nat_small: "n < 10 \<Longrightarrow> string_of_nat n = [digit_char n]"
  by (simp add: string_of_nat.simps)

lemma string_of_nat_two:
  "10 \<le> n \<Longrightarrow> n < 100 \<Longrightarrow> string_of_nat n = [digit_char (n div 10), digit_char (n mod 10)]"
  by (subst string_of_nat.simps) (simp add: string_of_nat_small)

lemma pad2:
  "n < 100 \<Longrightarrow>
   padStart 2 CHR ''0'' (string_of_nat n) = [digit_char (n div 10), digit_char (n mod 10)]"
  by (cases "n < 10")
    (simp_all add: string_of_nat_small string_of_nat_two padStart_def digit_char_simps)

lemma getHours_range: "0 \<le> getHours tz t \<and> getHours tz t < 24"
  by (simp add: getHours_def)

lemma getMinutes_range: "0 \<le> getMinutes tz t \<and> getMinutes tz t < 60"
  by (simp add: getMinutes_def)

lemma currentTimeStr_HHMM:
  "currentTimeStr tz t =
     [digit_char (nat (getHours tz t) div 10), digit_char (nat (getHours tz t) mod 10), CHR '':'',
      digit_char (nat (getMinutes tz t) div 10), digit_char (nat (getMinutes tz t) mod 10)]"
proof -
  have h: "nat (getHours tz t) < 100" using getHours_range [of tz t] by linarith
  have m: "nat (getMinutes tz t) < 100" using getMinutes_range [of tz t] by linarith
  have h0: "\<not> getHours tz t < 0" using getHours_range [of tz t] by simp
  have m0: "\<not> getMinutes tz t < 0" using getMinutes_range [of tz t] by simp
  show ?thesis
    by (simp add: currentTimeStr_def String_int_def h0 m0 pad2 [OF h] pad2 [OF m])
qed

subsection \<open>The alarm check\<close>

lemma startAlarmSound_state:
  "alarm (state_of (startAlarmSound ok s)) = alarm s \<and>
   isRinging (state_of (startAlarmSound ok s)) = isRinging s \<and>
   currentTime (state_of (startAlarmSound ok s)) = currentTime s"
  by (simp add: startAlarmSound_def)

lemma startAlarmSound_True:
  "startAlarmSound True s =
     Returned (if audioContextRef s \<noteq> None then s
               else s\<lparr>audioContextRef := Some AudioContext_new,
                      oscillatorRef := Some Oscillator_started,
                      gainRef := Some Gain_connected\<rparr>)"
  by (simp add: startAlarmSound_def)

lemma checkAlarm_fire:
  assumes "enabled (alarm s)" "\<not> isRinging s" "\<not> snoozed (alarm s)"
    "currentTimeStr tz (currentTime s) = time (alarm s)" "getSeconds tz (currentTime s) = 0"
  shows "checkAlarm audioOK tz dateNow s = startAlarmSound audioOK (s\<lparr>isRinging := True\<rparr>)"
  using assms by (simp add: checkAlarm_def)

lemma checkAlarm_idle:
  assumes "\<not> snoozed (alarm s)"
    "\<not> (enabled (alarm s) \<and> \<not> isRinging s \<and>
        currentTimeStr tz (currentTime s) = time (alarm s) \<and> getSeconds tz (currentTime s) = 0)"
  shows "checkAlarm audioOK tz dateNow s = Returned s"
  using assms by (auto simp add: checkAlarm_def)

lemma ringsByTimeMatch_iff:
  "ringsByTimeMatch s (checkAlarm audioOK tz dateNow s) =
     (enabled (alarm s) \<and> \<not> isRinging s \<and> \<not> snoozed (alarm s) \<and>
      currentTimeStr tz (currentTime s) = time (alarm s) \<and> getSeconds tz (currentTime s) = 0)"
proof (cases "snoozed (alarm s)")
  case True
  then show ?thesis by (simp add: ringsByTimeMatch_def)
next
  case ns: False
  show ?thesis
  proof (cases "enabled (alarm s) \<and> \<not> isRinging s \<and>
        currentTimeStr tz (currentTime s) = time (alarm s) \<and> getSeconds tz (currentTime s) = 0")
    case True
    then have "checkAlarm audioOK tz dateNow s = startAlarmSound audioOK (s\<lparr>isRinging := True\<rparr>)"
      using ns by (simp add: checkAlarm_fire)
    then show ?thesis using True ns
      by (simp add: ringsByTimeMatch_def startAlarmSound_state)
  next
    case False
    then have "checkAlarm audioOK tz dateNow s = Returned s"
      using ns by (intro checkAlarm_idle) simp_all
    then show ?thesis using False ns by (auto simp add: ringsByTimeMatch_def)
  qed
qed

lemma checkAlarm_quiet:
  "quiet s \<Longrightarrow> quiet (state_of (checkAlarm ok tz dn s)) \<and> \<not> ringsByTimeMatch s (checkAlarm ok tz dn s)"
  by (auto simp add: quiet_def checkAlarm_def ringsByTimeMatch_def startAlarmSound_state Let_def
      split: option.splits)

lemma step_quiet:
  "quiet s \<Longrightarrow> quiet (state_of (step ok tz e s)) \<and> \<not> (is_Tick e \<and> ringsByTimeMatch s (step ok tz e s))"
proof (cases e)
  case (Tick c dn)
  assume q: "quiet s"
  then have "quiet (s\<lparr>currentTime := c\<rparr>)" by (simp add: quiet_def)
  from checkAlarm_quiet [OF this, of ok tz dn] show ?thesis
    using Tick by (simp add: tick_def ringsByTimeMatch_def)
next
  case (Snooze dn)
  then show ?thesis by (simp add: quiet_def handleSnooze_def stopAlarmSound_def Let_def)
next
  case Dismiss
  then show ?thesis by (simp add: quiet_def handleDismiss_def stopAlarmSound_def Let_def)
qed

lemma quiet_no_entries: "quiet s \<Longrightarrow> timeMatchEntries ok tz es s = 0"
proof (induction es arbitrary: s)
  case Nil
  then show ?case by simp
next
  case (Cons e es)
  from step_quiet [OF Cons.prems, of ok tz e]
  have q: "quiet (state_of (step ok tz e s))"
    and n: "\<not> (is_Tick e \<and> ringsByTimeMatch s (step ok tz e s))" by simp_all
  show ?case
  proof (cases "step ok tz e s")
    case (Returned s')
    with q have "quiet s'" by simp
    from Cons.IH [OF this] n Returned show ?thesis by (simp add: Let_def)
  next
    case (Raised err s')
    with n show ?thesis by (simp add: Let_def)
  qed
qed

lemma timeMatchEntries_le_1: "timeMatchEntries ok tz es s \<le> 1"
proof (induction es arbitrary: s)
  case Nil
  then show ?case by simp
next
  case (Cons e es)
  show ?case
  proof (cases "step ok tz e s")
    case (Raised err s')
    then show ?thesis by (simp add: Let_def)
  next
    case (Returned s')
    show ?thesis
    proof (cases "is_Tick e \<and> ringsByTimeMatch s (step ok tz e s)")
      case True
      then have "isRinging s'" using Returned by (simp add: ringsByTimeMatch_def)
      then have "quiet s'" by (simp add: quiet_def)
      then show ?thesis using Returned True by (simp add: Let_def quiet_no_entries)
    next
      case False
      then have "\<not> (is_Tick e \<and> ringsByTimeMatch s (Returned s'))" using Returned by simp
      then show ?thesis using Returned Cons.IH [of s'] by (auto simp add: Let_def)
    qed
  qed
qed

text \<open>
  C1. A run of the alarm check makes the alarm ring by time match exactly when the alarm
  is enabled, not ringing, not snoozed, the local time formatted as zero-padded HH:MM
  equals the configured time string, and the seconds of the local time are 0. On that
  run the ringing flag is set and \<^verbatim>\<open>startAlarmSound\<close> runs (with a working audio
  subsystem a sound session exists afterwards); on every other run in a state that is not
  snoozed nothing changes. In any run of ticks, snoozes and dismisses, from any state,
  the alarm rings by time match at most once (so at most once per day).
\<close>

theorem tick_rings_by_time_match:
  "ringsByTimeMatch s (checkAlarm audioOK tz dateNow s) =
     (enabled (alarm s) \<and> \<not> isRinging s \<and> \<not> snoozed (alarm s) \<and>
      currentTimeStr tz (currentTime s) = time (alarm s) \<and> getSeconds tz (currentTime s) = 0)
   \<and> (ringsByTimeMatch s (checkAlarm audioOK tz dateNow s) \<longrightarrow>
        checkAlarm audioOK tz dateNow s = startAlarmSound audioOK (s\<lparr>isRinging := True\<rparr>) \<and>
        checkAlarm True tz dateNow s =
          Returned (if audioContextRef s \<noteq> None then s\<lparr>isRinging := True\<rparr>
                    else s\<lparr>isRinging := True,
                           audioContextRef := Some AudioContext_new,
                           oscillatorRef := Some Oscillator_started,
                           gainRef := Some Gain_connected\<rparr>))
   \<and> (\<not> snoozed (alarm s) \<and> \<not> ringsByTimeMatch s (checkAlarm audioOK tz dateNow s) \<longrightarrow>
        checkAlarm audioOK tz dateNow s = Returned s)
   \<and> currentTimeStr tz t =
        [digit_char (nat (getHours tz t) div 10), digit_char (nat (getHours tz t) mod 10), CHR '':'',
         digit_char (nat (getMinutes tz t) div 10), digit_char (nat (getMinutes tz t) mod 10)]
   \<and> timeMatchEntries audioOK tz es s0 \<le> 1"
proof -
  let ?c = "enabled (alarm s) \<and> \<not> isRinging s \<and> \<not> snoozed (alarm s) \<and>
      currentTimeStr tz (currentTime s) = time (alarm s) \<and> getSeconds tz (currentTime s) = 0"
  have a: "\<And>ok. ringsByTimeMatch s (checkAlarm ok tz dateNow s) = ?c"
    by (rule ringsByTimeMatch_iff)
  have b: "?c \<Longrightarrow> checkAlarm ok tz dateNow s = startAlarmSound ok (s\<lparr>isRinging := True\<rparr>)" for ok
    by (simp add: checkAlarm_fire)
  have b': "?c \<Longrightarrow> checkAlarm True tz dateNow s =
          Returned (if audioContextRef s \<noteq> None then s\<lparr>isRinging := True\<rparr>
                    else s\<lparr>isRinging := True,
                           audioContextRef := Some AudioContext_new,
                           oscillatorRef := Some Oscillator_started,
                           gainRef := Some Gain_connected\<rparr>)"
    using b [of True] by (simp add: startAlarmSound_True)
  have c: "\<not> snoozed (alarm s) \<Longrightarrow> \<not> ?c \<Longrightarrow> checkAlarm audioOK tz dateNow s = Returned s"
    by (rule checkAlarm_idle) auto
  show ?thesis
    using a b b' c currentTimeStr_HHMM [of tz t] timeMatchEntries_le_1 [of audioOK tz es s0]
    by blast
qed

theorem tick_rings_by_time_match_witness:
  "ringsByTimeMatch armed_at_7 (checkAlarm True 0 25200000 armed_at_7) \<and>
   checkAlarm True 0 25200000 armed_at_7 =
     Returned (armed_at_7\<lparr>isRinging := True,
                          audioContextRef := Some AudioContext_new,
                          oscillatorRef := Some Oscillator_started,
                          gainRef := Some Gain_connected\<rparr>) \<and>
   \<not> ringsByTimeMatch (armed_at_7\<lparr>currentTime := 25201000\<rparr>)
        (checkAlarm True 0 25201000 (armed_at_7\<lparr>currentTime := 25201000\<rparr>)) \<and>
   checkAlarm True 0 25201000 (armed_at_7\<lparr>currentTime := 25201000\<rparr>) =
     Returned (armed_at_7\<lparr>currentTime := 25201000\<rparr>) \<and>
   timeMatchEntries True 0 [Tick 25199000 25199000, Tick 25200000 25200000, Tick 25201000 25201000]
     (armed_at_7\<lparr>currentTime := 25198000\<rparr>) \<le> 1"
proof -
  have str7: "currentTimeStr 0 25200000 = ''07:00''" by code_simp
  have str7': "currentTimeStr 0 25201000 = ''07:00''" by code_simp
  have sec7: "getSeconds 0 25200000 = 0" by code_simp
  have sec7': "getSeconds 0 25201000 = 1" by code_simp
  show ?thesis
    using tick_rings_by_time_match [of armed_at_7 True 0 25200000 0 "[Tick 25199000 25199000, Tick 25200000 25200000, Tick 25201000 25201000]" "armed_at_7\<lparr>currentTime := 25198000\<rparr>"]
      tick_rings_by_time_match [of "armed_at_7\<lparr>currentTime := 25201000\<rparr>" True 0 25201000 0 "[]" armed_at_7]
    by (simp add: armed_at_7_def str7 str7' sec7 sec7')
qed

subsection \<open>Snooze\<close>

lemma handleSnooze_eq:
  "handleSnooze t s =
     s\<lparr>alarm := (alarm s)\<lparr>snoozed := True, snoozeUntil := Some (t + SNOOZE_DURATION)\<rparr>,
       isRinging := False, audioContextRef := None, oscillatorRef := None, gainRef := None\<rparr>"
  by (simp add: handleSnooze_def stopAlarmSound_def Let_def)

lemma handleDismiss_eq:
  "handleDismiss s =
     s\<lparr>alarm := (alarm s)\<lparr>enabled := False, snoozed := False, snoozeUntil := None\<rparr>,
       isRinging := False, audioContextRef := None, oscillatorRef := None, gainRef := None\<rparr>"
  by (simp add: handleDismiss_def stopAlarmSound_def Let_def)

lemma checkAlarm_snoozed_wait:
  assumes "snoozed (alarm s)" "snoozeUntil (alarm s) = Some u" "u \<noteq> 0" "dateNow < u"
  shows "checkAlarm audioOK tz dateNow s = Returned s"
  using assms by (simp add: checkAlarm_def truthy_def)

lemma checkAlarm_snoozed_expired:
  assumes "enabled (alarm s)" "\<not> isRinging s"
    "snoozed (alarm s)" "snoozeUntil (alarm s) = Some u" "u \<noteq> 0" "u \<le> dateNow"
  shows "checkAlarm audioOK tz dateNow s =
     startAlarmSound audioOK
       (s\<lparr>alarm := (alarm s)\<lparr>snoozed := False, snoozeUntil := None\<rparr>, isRinging := True\<rparr>)"
  using assms by (simp add: checkAlarm_def truthy_def)

lemma ticks_snoozed:
  assumes "enabled (alarm s)" "\<not> isRinging s"
    "snoozed (alarm s)" "snoozeUntil (alarm s) = Some u" "u \<noteq> 0"
    "\<forall>(c, dn) \<in> set pre. dn < u" "u \<le> dn'"
  shows "ticks audioOK tz (pre @ [(c', dn')]) s =
     startAlarmSound audioOK
       (s\<lparr>currentTime := c',
          alarm := (alarm s)\<lparr>snoozed := False, snoozeUntil := None\<rparr>, isRinging := True\<rparr>)"
  using assms
proof (induction pre arbitrary: s)
  case Nil
  have "tick audioOK tz c' dn' s = startAlarmSound audioOK
       (s\<lparr>currentTime := c',
          alarm := (alarm s)\<lparr>snoozed := False, snoozeUntil := None\<rparr>, isRinging := True\<rparr>)"
    unfolding tick_def using Nil
    by (subst checkAlarm_snoozed_expired [where u = u]) simp_all
  then show ?case by (cases "startAlarmSound audioOK
       (s\<lparr>currentTime := c',
          alarm := (alarm s)\<lparr>snoozed := False, snoozeUntil := None\<rparr>, isRinging := True\<rparr>)") simp_all
next
  case (Cons p pre)
  obtain c dn where p: "p = (c, dn)" by (cases p)
  with Cons.prems have dn: "dn < u" by simp
  have t: "tick audioOK tz c dn s = Returned (s\<lparr>currentTime := c\<rparr>)"
    unfolding tick_def using Cons.prems dn
    by (intro checkAlarm_snoozed_wait [where u = u]) simp_all
  have "ticks audioOK tz (pre @ [(c', dn')]) (s\<lparr>currentTime := c\<rparr>) =
     startAlarmSound audioOK
       ((s\<lparr>currentTime := c\<rparr>)\<lparr>currentTime := c',
          alarm := (alarm (s\<lparr>currentTime := c\<rparr>))\<lparr>snoozed := False, snoozeUntil := None\<rparr>, isRinging := True\<rparr>)"
    using Cons.prems by (intro Cons.IH) simp_all
  then show ?case using p t by simp
qed

text \<open>
  C2. \<^verbatim>\<open>handleSnooze\<close> at time \<open>t\<close> sets \<open>snoozed\<close>, sets \<open>snoozeUntil\<close> to
  \<open>t\<close> plus 5 minutes, clears the ringing flag and stops the sound (nulls the audio
  refs). While the state is snoozed and \<^verbatim>\<open>Date.now()\<close> is below \<open>snoozeUntil\<close>, a run
  of the alarm check changes nothing, whatever the time of day. The first run at which
  the alarm is enabled, not ringing and \<^verbatim>\<open>Date.now()\<close> has reached \<open>snoozeUntil\<close> clears
  both snooze fields, sets the ringing flag and runs \<^verbatim>\<open>startAlarmSound\<close>; after a snooze
  and with a working audio subsystem that is a new sound session. The effect tests
  \<^verbatim>\<open>alarm.snoozeUntil\<close> for truth, so the value must not be the number 0 (it is not for
  any clock after 1969).
\<close>

theorem snooze_lifecycle:
  "handleSnooze t s =
     s\<lparr>alarm := (alarm s)\<lparr>snoozed := True, snoozeUntil := Some (t + 5 * 60 * 1000)\<rparr>,
       isRinging := False, audioContextRef := None, oscillatorRef := None, gainRef := None\<rparr>
   \<and> (snoozed (alarm s) \<and> snoozeUntil (alarm s) = Some u \<and> u \<noteq> 0 \<and> dateNow < u \<longrightarrow>
        checkAlarm audioOK tz dateNow s = Returned s)
   \<and> (enabled (alarm s) \<and> \<not> isRinging s \<and>
       snoozed (alarm s) \<and> snoozeUntil (alarm s) = Some u \<and> u \<noteq> 0 \<and> u \<le> dateNow \<longrightarrow>
        checkAlarm audioOK tz dateNow s =
          startAlarmSound audioOK
            (s\<lparr>alarm := (alarm s)\<lparr>snoozed := False, snoozeUntil := None\<rparr>, isRinging := True\<rparr>))
   \<and> (enabled (alarm s) \<and> t + 5 * 60 * 1000 \<noteq> 0 \<and>
       (\<forall>(c, dn) \<in> set pre. dn < t + 5 * 60 * 1000) \<and> t + 5 * 60 * 1000 \<le> dn' \<longrightarrow>
        ticks True tz (pre @ [(c', dn')]) (handleSnooze t s) =
          Returned (s\<lparr>currentTime := c',
                     alarm := (alarm s)\<lparr>snoozed := False, snoozeUntil := None\<rparr>,
                     isRinging := True,
                     audioContextRef := Some AudioContext_new,
                     oscillatorRef := Some Oscillator_started,
                     gainRef := Some Gain_connected\<rparr>))"
proof (intro conjI impI)
  show "handleSnooze t s =
     s\<lparr>alarm := (alarm s)\<lparr>snoozed := True, snoozeUntil := Some (t + 5 * 60 * 1000)\<rparr>,
       isRinging := False, audioContextRef := None, oscillatorRef := None, gainRef := None\<rparr>"
    by (simp add: handleSnooze_eq SNOOZE_DURATION_def)
next
  assume "snoozed (alarm s) \<and> snoozeUntil (alarm s) = Some u \<and> u \<noteq> 0 \<and> dateNow < u"
  then show "checkAlarm audioOK tz dateNow s = Returned s"
    by (intro checkAlarm_snoozed_wait [where u = u]) simp_all
next
  assume "enabled (alarm s) \<and> \<not> isRinging s \<and>
       snoozed (alarm s) \<and> snoozeUntil (alarm s) = Some u \<and> u \<noteq> 0 \<and> u \<le> dateNow"
  then show "checkAlarm audioOK tz dateNow s =
          startAlarmSound audioOK
            (s\<lparr>alarm := (alarm s)\<lparr>snoozed := False, snoozeUntil := None\<rparr>, isRinging := True\<rparr>)"
    by (intro checkAlarm_snoozed_expired [where u = u]) simp_all
next
  assume a: "enabled (alarm s) \<and> t + 5 * 60 * 1000 \<noteq> 0 \<and>
       (\<forall>(c, dn) \<in> set pre. dn < t + 5 * 60 * 1000) \<and> t + 5 * 60 * 1000 \<le> dn'"
  have "ticks True tz (pre @ [(c', dn')]) (handleSnooze t s) =
     startAlarmSound True
       ((handleSnooze t s)\<lparr>currentTime := c',
          alarm := (alarm (handleSnooze t s))\<lparr>snoozed := False, snoozeUntil := None\<rparr>, isRinging := True\<rparr>)"
    using a by (intro ticks_snoozed [where u = "t + 5 * 60 * 1000"])
      (simp_all add: handleSnooze_eq SNOOZE_DURATION_def)
  then show "ticks True tz (pre @ [(c', dn')]) (handleSnooze t s) =
          Returned (s\<lparr>currentTime := c',
                     alarm := (alarm s)\<lparr>snoozed := False, snoozeUntil := None\<rparr>,
                     isRinging := True,
                     audioContextRef := Some AudioContext_new,
                     oscillatorRef := Some Oscillator_started,
                     gainRef := Some Gain_connected\<rparr>)"
    by (simp add: handleSnooze_eq startAlarmSound_def)
qed

theorem snooze_lifecycle_witness:
  "handleSnooze 25205000 ringing_at_7 =
     \<lparr>currentTime = 25205000,
      alarm = \<lparr>time = ''07:00'', enabled = True, snoozed = True, snoozeUntil = Some 25505000\<rparr>,
      isRinging = False, audioContextRef = None, oscillatorRef = None, gainRef = None\<rparr> \<and>
   checkAlarm True 0 25504000 (handleSnooze 25205000 ringing_at_7) =
     Returned (handleSnooze 25205000 ringing_at_7) \<and>
   checkAlarm True 0 25505000 (handleSnooze 25205000 ringing_at_7) =
     Returned (ringing_at_7\<lparr>currentTime := 25205000\<rparr>) \<and>
   ticks True 0 [(25206000, 25206000), (25504000, 25504000), (25505000, 25505000)]
       (handleSnooze 25205000 ringing_at_7) =
     Returned (ringing_at_7\<lparr>currentTime := 25505000\<rparr>)"
proof -
  let ?s1 = "handleSnooze 25205000 ringing_at_7"
  have s1: "?s1 = \<lparr>currentTime = 25205000,
      alarm = \<lparr>time = ''07:00'', enabled = True, snoozed = True, snoozeUntil = Some 25505000\<rparr>,
      isRinging = False, audioContextRef = None, oscillatorRef = None, gainRef = None\<rparr>"
    using snooze_lifecycle [of 25205000 ringing_at_7 0 0 True 0 "[]" 0 0]
    by (simp add: ringing_at_7_def)
  have w: "checkAlarm True 0 25504000 ?s1 = Returned ?s1"
    using snooze_lifecycle [of 25205000 ?s1 25505000 25504000 True 0 "[]" 0 0]
    by (simp add: handleSnooze_eq SNOOZE_DURATION_def ringing_at_7_def)
  have e: "checkAlarm True 0 25505000 ?s1 = Returned (ringing_at_7\<lparr>currentTime := 25205000\<rparr>)"
    using snooze_lifecycle [of 25205000 ?s1 25505000 25505000 True 0 "[]" 0 0]
    by (simp add: handleSnooze_eq SNOOZE_DURATION_def startAlarmSound_def ringing_at_7_def)
  have l: "ticks True 0 [(25206000, 25206000), (25504000, 25504000), (25505000, 25505000)] ?s1 =
     Returned (ringing_at_7\<lparr>currentTime := 25505000\<rparr>)"
    using snooze_lifecycle [of 25205000 ringing_at_7 0 0 True 0
        "[(25206000, 25206000), (25504000, 25504000)]" 25505000 25505000]
    by (simp add: ringing_at_7_def handleSnooze_eq SNOOZE_DURATION_def del: ticks.simps)
  from s1 w e l show ?thesis by simp
qed

subsection \<open>Dismiss and snooze while not ringing\<close>



subsection \<open>A failing audio subsystem\<close>

text \<open>
  C9 as stated fails: with no \<^verbatim>\<open>AudioContext\<close> to construct, the run of the alarm check
  that fires at 07:00:00 does not return. The exception of \<^verbatim>\<open>startAlarmSound\<close> leaves
  the effect.
\<close>

theorem audio_failure_escapes_counterexample:
  "raised (checkAlarm False 0 25200000 armed_at_7) = Some AudioError"
proof -
  have str7: "currentTimeStr 0 25200000 = ''07:00''" by code_simp
  have sec7: "getSeconds 0 25200000 = 0" by code_simp
  show ?thesis
    by (simp add: checkAlarm_def startAlarmSound_def armed_at_7_def str7 sec7)
qed

text \<open>
  C9, amended. When the \<^verbatim>\<open>AudioContext\<close> cannot be constructed and no sound session is
  open, the run of the alarm check that fires the alarm, by time match or by an expired
  snooze, throws: \<^verbatim>\<open>startAlarmSound\<close> raises and nothing in the component catches the
  exception, so the failure is not recovered locally. A run with a working audio
  subsystem, or with a sound session already open, throws nothing.
\<close>

theorem audio_failure_leaves_the_alarm_check:
  "(enabled (alarm s) \<and> \<not> isRinging s \<and> \<not> snoozed (alarm s) \<and>
    currentTimeStr tz (currentTime s) = time (alarm s) \<and> getSeconds tz (currentTime s) = 0 \<and>
    audioContextRef s = None \<longrightarrow>
      raised (checkAlarm False tz dateNow s) = Some AudioError)
   \<and> (enabled (alarm s) \<and> \<not> isRinging s \<and> snoozed (alarm s) \<and>
       snoozeUntil (alarm s) = Some u \<and> u \<noteq> 0 \<and> u \<le> dateNow \<and> audioContextRef s = None \<longrightarrow>
      raised (checkAlarm False tz dateNow s) = Some AudioError)
   \<and> raised (checkAlarm True tz dateNow s) = None
   \<and> (audioContextRef s \<noteq> None \<longrightarrow> raised (checkAlarm False tz dateNow s) = None)"
proof (intro conjI impI)
  assume a: "enabled (alarm s) \<and> \<not> isRinging s \<and> \<not> snoozed (alarm s) \<and>
    currentTimeStr tz (currentTime s) = time (alarm s) \<and> getSeconds tz (currentTime s) = 0 \<and>
    audioContextRef s = None"
  then have "checkAlarm False tz dateNow s = startAlarmSound False (s\<lparr>isRinging := True\<rparr>)"
    by (intro checkAlarm_fire) simp_all
  then show "raised (checkAlarm False tz dateNow s) = Some AudioError"
    using a by (simp add: startAlarmSound_def)
next
  assume a: "enabled (alarm s) \<and> \<not> isRinging s \<and> snoozed (alarm s) \<and>
       snoozeUntil (alarm s) = Some u \<and> u \<noteq> 0 \<and> u \<le> dateNow \<and> audioContextRef s = None"
  then have "checkAlarm False tz dateNow s =
     startAlarmSound False
       (s\<lparr>alarm := (alarm s)\<lparr>snoozed := False, snoozeUntil := None\<rparr>, isRinging := True\<rparr>)"
    by (intro checkAlarm_snoozed_expired [where u = u]) simp_all
  then show "raised (checkAlarm False tz dateNow s) = Some AudioError"
    using a by (simp add: startAlarmSound_def)
next
  show "raised (checkAlarm True tz dateNow s) = None"
    by (simp add: checkAlarm_def startAlarmSound_def Let_def split: option.splits)
next
  assume "audioContextRef s \<noteq> None"
  then show "raised (checkAlarm False tz dateNow s) = None"
    by (simp add: checkAlarm_def startAlarmSound_def Let_def split: option.splits)
qed

theorem audio_failure_leaves_the_alarm_check_witness:
  "enabled (alarm armed_at_7) \<and> \<not> isRinging armed_at_7 \<and> \<not> snoozed (alarm armed_at_7) \<and>
   currentTimeStr 0 (currentTime armed_at_7) = time (alarm armed_at_7) \<and>
   getSeconds 0 (currentTime armed_at_7) = 0 \<and> audioContextRef armed_at_7 = None \<and>
   raised (checkAlarm False 0 25200000 armed_at_7) = Some AudioError \<and>
   raised (checkAlarm False 0 25505000 (handleSnooze 25205000 ringing_at_7)) = Some AudioError \<and>
   raised (checkAlarm False 0 25205000 ringing_at_7) = None"
proof -
  have str7: "currentTimeStr 0 25200000 = ''07:00''" by code_simp
  have sec7: "getSeconds 0 25200000 = 0" by code_simp
  show ?thesis
    using audio_failure_leaves_the_alarm_check [of armed_at_7 0 25200000 0]
      audio_failure_leaves_the_alarm_check
        [of "handleSnooze 25205000 ringing_at_7" 0 25505000 25505000]
      audio_failure_leaves_the_alarm_check [of ringing_at_7 0 25205000 0]
    by (simp add: armed_at_7_def ringing_at_7_def handleSnooze_eq SNOOZE_DURATION_def str7 sec7)
qed

subsection \<open>The time until the alarm\<close>

lemma of_char_digit_char: "d < 10 \<Longrightarrow> (of_char (digit_char d) :: nat) = 48 + d"
  by (simp add: digit_char_def)

lemma digit_char_not_colon: "d < 10 \<Longrightarrow> digit_char d \<noteq> CHR '':''"
proof
  assume d: "d < 10" and "digit_char d = CHR '':''"
  then have "(of_char (digit_char d) :: nat) = of_char CHR '':''" by simp
  with d show False by (simp add: of_char_digit_char)
qed

lemma is_digit_digit_char: "d < 10 \<Longrightarrow> is_digit (digit_char d)"
  by (simp add: is_digit_def of_char_digit_char)

lemma digit_val_digit_char: "d < 10 \<Longrightarrow> digit_val (digit_char d) = d"
  by (simp add: digit_val_def of_char_digit_char)

lemma Number_str_two_digits:
  "a < 10 \<Longrightarrow> b < 10 \<Longrightarrow> Number_str [digit_char a, digit_char b] = Num (int (10 * a + b))"
  by (simp add: Number_str_def is_digit_digit_char nat_of_digits_def digit_val_digit_char)

lemma split_HHMM:
  assumes "hh < 100" "mm < 100"
  shows "split CHR '':'' (HHMM hh mm) =
    [[digit_char (hh div 10), digit_char (hh mod 10)], [digit_char (mm div 10), digit_char (mm mod 10)]]"
proof -
  have "hh div 10 < 10" "hh mod 10 < 10" "mm div 10 < 10" "mm mod 10 < 10" using assms by simp_all
  then show ?thesis by (simp add: HHMM_def digit_char_not_colon)
qed

lemma parts_HHMM:
  assumes "hh < 100" "mm < 100"
  shows "map Number_str (split CHR '':'' (HHMM hh mm)) = [Num (int hh), Num (int mm)]"
proof -
  have "hh div 10 < 10" "hh mod 10 < 10" "mm div 10 < 10" "mm mod 10 < 10" using assms by simp_all
  then show ?thesis by (simp add: split_HHMM assms Number_str_two_digits)
qed

text \<open>The time of day, in milliseconds, of a local time whose four clock fields are known.\<close>

lemma time_within_day:
  fixes L :: int
  assumes h: "(L div 3600000) mod 24 = hh" and m: "(L div 60000) mod 60 = mm"
    and s: "(L div 1000) mod 60 = 0" and ms: "L mod 1000 = 0"
  shows "L mod 86400000 = hh * 3600000 + mm * 60000"
proof -
  define S where "S = L div 1000"
  define M where "M = S div 60"
  define H where "H = M div 60"
  define D where "D = H div 24"
  have L: "L = 1000 * S" using div_mult_mod_eq [of L 1000] ms unfolding S_def by simp
  have M60: "L div 60000 = M" unfolding M_def S_def by (simp add: zdiv_zmult2_eq)
  have H36: "L div 3600000 = H" unfolding H_def M_def S_def by (simp add: zdiv_zmult2_eq)
  have S: "S = 60 * M" using div_mult_mod_eq [of S 60] s unfolding M_def S_def by simp
  have "M mod 60 = mm" using m M60 by simp
  then have M: "M = 60 * H + mm" unfolding H_def by (metis mult_div_mod_eq)
  have "H mod 24 = hh" using h H36 by simp
  then have H: "H = 24 * D + hh" unfolding D_def by (metis mult_div_mod_eq)
  have mm: "0 \<le> mm" "mm < 60" using m by auto
  have hh: "0 \<le> hh" "hh < 24" using h by auto
  have e: "L = (hh * 3600000 + mm * 60000) + D * 86400000" using L S M H by simp
  have r: "0 \<le> hh * 3600000 + mm * 60000" "hh * 3600000 + mm * 60000 < 86400000"
    using mm hh by simp_all
  have "L mod 86400000 = (hh * 3600000 + mm * 60000) mod 86400000"
    unfolding e by (rule mod_mult_self1)
  then show ?thesis using r by (simp add: mod_pos_pos_trivial)
qed

lemma clock_fields:
  fixes L D hh mm :: int
  assumes L: "L = 86400000 * D + (hh * 3600000 + mm * 60000)"
    and r: "0 \<le> hh" "hh < 24" "0 \<le> mm" "mm < 60"
  shows "(L div 3600000) mod 24 = hh" "(L div 60000) mod 60 = mm"
    "(L div 1000) mod 60 = 0" "L mod 1000 = 0"
proof -
  have c: "L = 1000 * (60 * (60 * (hh + 24 * D) + mm))" using L by simp
  have S: "L div 1000 = 60 * (60 * (hh + 24 * D) + mm)" unfolding c by simp
  have "L div 60000 = (L div 1000) div 60" by (simp add: zdiv_zmult2_eq)
  then have M: "L div 60000 = mm + (hh + 24 * D) * 60" unfolding S by simp
  have "L div 3600000 = (L div 60000) div 60" by (simp add: zdiv_zmult2_eq)
  then have "L div 3600000 = (mm + (hh + 24 * D) * 60) div 60" unfolding M by simp
  also have "\<dots> = (hh + 24 * D) + mm div 60" by (rule div_mult_self1) simp
  finally have H: "L div 3600000 = hh + D * 24" using r by (simp add: div_pos_pos_trivial)
  have "(hh + D * 24) mod 24 = hh mod 24" by (rule mod_mult_self1)
  then show "(L div 3600000) mod 24 = hh" using H r by (simp add: mod_pos_pos_trivial)
  have "(mm + (hh + 24 * D) * 60) mod 60 = mm mod 60" by (rule mod_mult_self1)
  then show "(L div 60000) mod 60 = mm" using M r by (simp add: mod_pos_pos_trivial)
  show "(L div 1000) mod 60 = 0" unfolding S by simp
  show "L mod 1000 = 0" unfolding c by simp
qed

lemma nextOccurrence_unique:
  assumes a: "nextOccurrence tz now hh mm a" and b: "nextOccurrence tz now hh mm b"
  shows "a = b"
proof -
  let ?c = "int hh * 3600000 + int mm * 60000"
  have ma: "(a + tz) mod 86400000 = ?c"
    using a unfolding nextOccurrence_def getHours_def getMinutes_def getSeconds_def
      getMilliseconds_def LocalTime_def msPerHour_def msPerMinute_def msPerSecond_def
    by (intro time_within_day) simp_all
  have mb: "(b + tz) mod 86400000 = ?c"
    using b unfolding nextOccurrence_def getHours_def getMinutes_def getSeconds_def
      getMilliseconds_def LocalTime_def msPerHour_def msPerMinute_def msPerSecond_def
    by (intro time_within_day) simp_all
  define qa where "qa = (a + tz) div 86400000"
  define qb where "qb = (b + tz) div 86400000"
  have ea: "a + tz = 86400000 * qa + ?c" unfolding qa_def using ma by (metis mult_div_mod_eq)
  have eb: "b + tz = 86400000 * qb + ?c" unfolding qb_def using mb by (metis mult_div_mod_eq)
  have ra: "now < a" "a \<le> now + 86400000" using a by (simp_all add: nextOccurrence_def msPerDay_def)
  have rb: "now < b" "b \<le> now + 86400000" using b by (simp_all add: nextOccurrence_def msPerDay_def)
  have "86400000 * (qa - qb) = a - b" using ea eb by simp
  moreover have "a - b < 86400000" "- 86400000 < a - b" using ra rb by simp_all
  ultimately have "qa - qb < 1" "- 1 < qa - qb" by simp_all
  then have "qa = qb" by simp
  with ea eb show ?thesis by simp
qed

text \<open>The date that lines 164 to 169 compute for a well-formed time.\<close>

lemma code_nextOccurrence:
  fixes now tz :: int and hh mm :: nat
  assumes hh: "hh < 24" and mm: "mm < 60"
  defines "a0 \<equiv> ((now + tz) div 86400000) * 86400000 + int hh * 3600000 + int mm * 60000 - tz"
  shows "nextOccurrence tz now hh mm (if a0 \<le> now then a0 + 86400000 else a0)"
proof -
  define c where "c = int hh * 3600000 + int mm * 60000"
  define D where "D = (now + tz) div 86400000"
  define r where "r = (now + tz) mod 86400000"
  have c: "0 \<le> c" "c < 86400000" unfolding c_def using hh mm by simp_all
  have n: "now = 86400000 * D + r - tz" unfolding D_def r_def by simp
  have r: "0 \<le> r" "r < 86400000" unfolding r_def by simp_all
  have b: "0 \<le> int hh" "int hh < 24" "0 \<le> int mm" "int mm < 60" using hh mm by simp_all
  have a0: "a0 = 86400000 * D + c - tz" unfolding a0_def D_def c_def by simp
  show ?thesis
  proof (cases "a0 \<le> now")
    case True
    then have cr: "c \<le> r" unfolding a0 n by simp
    have lo: "now < a0 + 86400000" unfolding a0 n using c r by simp
    have hi: "a0 + 86400000 \<le> now + 86400000" using True by simp
    have L: "a0 + 86400000 + tz = 86400000 * (D + 1) + (int hh * 3600000 + int mm * 60000)"
      unfolding a0 c_def by simp
    have f: "((a0 + 86400000 + tz) div 3600000) mod 24 = int hh"
      "((a0 + 86400000 + tz) div 60000) mod 60 = int mm"
      "((a0 + 86400000 + tz) div 1000) mod 60 = 0" "(a0 + 86400000 + tz) mod 1000 = 0"
      by (rule clock_fields [OF L b])+
    have "nextOccurrence tz now hh mm (a0 + 86400000)"
      unfolding nextOccurrence_def getHours_def getMinutes_def getSeconds_def
        getMilliseconds_def LocalTime_def msPerHour_def msPerMinute_def msPerSecond_def msPerDay_def
      using lo hi f by blast
    then show ?thesis using True by simp
  next
    case False
    then have lo: "now < a0" by simp
    then have "r < c" unfolding a0 n by simp
    then have hi: "a0 \<le> now + 86400000" unfolding a0 n using c r by simp
    have L: "a0 + tz = 86400000 * D + (int hh * 3600000 + int mm * 60000)"
      unfolding a0 c_def by simp
    have f: "((a0 + tz) div 3600000) mod 24 = int hh"
      "((a0 + tz) div 60000) mod 60 = int mm"
      "((a0 + tz) div 1000) mod 60 = 0" "(a0 + tz) mod 1000 = 0"
      by (rule clock_fields [OF L b])+
    have "nextOccurrence tz now hh mm a0"
      unfolding nextOccurrence_def getHours_def getMinutes_def getSeconds_def
        getMilliseconds_def LocalTime_def msPerHour_def msPerMinute_def msPerSecond_def msPerDay_def
      using lo hi f by blast
    then show ?thesis using False by simp
  qed
qed

lemma getTimeUntilAlarm_unsnoozed:
  assumes en: "enabled (alarm s)"
    and ns: "\<not> (snoozed (alarm s) \<and> (\<exists>u. snoozeUntil (alarm s) = Some u \<and> u \<noteq> 0 \<and> dateNow < u))"
    and tm: "time (alarm s) = HHMM hh mm" and hh: "hh < 24" and mm: "mm < 60"
    and a: "nextOccurrence tz (currentTime s) hh mm a"
  shows "getTimeUntilAlarm tz dateNow s = Known (Some (formatRemaining (a - currentTime s)))"
proof -
  let ?now = "currentTime s"
  define a0 where "a0 = ((?now + tz) div 86400000) * 86400000 + int hh * 3600000 + int mm * 60000 - tz"
  let ?a = "if a0 \<le> ?now then a0 + 86400000 else a0"
  have "nextOccurrence tz ?now hh mm ?a"
    unfolding a0_def using hh mm by (rule code_nextOccurrence)
  then have aa: "a = ?a" using a by (rule nextOccurrence_unique [rotated])
  have parts: "map Number_str (split CHR '':'' (time (alarm s))) = [Num (int hh), Num (int mm)]"
    unfolding tm using hh mm by (intro parts_HHMM) simp_all
  have sh: "setHours tz ?now (Num (int hh)) (Num (int mm)) = Num a0"
    by (simp add: setHours_def a0_def LocalTime_def msPerDay_def msPerHour_def msPerMinute_def)
  show ?thesis
  proof (cases "snoozed (alarm s)")
    case False
    then show ?thesis using en
      by (simp add: getTimeUntilAlarm_def parts sh Let_def setDate_next_def msPerDay_def aa)
  next
    case sn: True
    show ?thesis
    proof (cases "snoozeUntil (alarm s)")
      case None
      then show ?thesis using en sn
        by (simp add: getTimeUntilAlarm_def parts sh Let_def setDate_next_def msPerDay_def aa
            truthy_def)
    next
      case (Some u)
      show ?thesis
      proof (cases "u = 0")
        case True
        then show ?thesis using en sn Some
          by (simp add: getTimeUntilAlarm_def parts sh Let_def setDate_next_def msPerDay_def aa
              truthy_def)
      next
        case False
        with ns sn Some have "\<not> dateNow < u" by simp
        then show ?thesis using en sn Some False
          by (simp add: getTimeUntilAlarm_def parts sh Let_def setDate_next_def msPerDay_def aa
              truthy_def)
      qed
    qed
  qed
qed

lemma getTimeUntilAlarm_snoozed:
  assumes "enabled (alarm s)" "snoozed (alarm s)" "snoozeUntil (alarm s) = Some u" "u \<noteq> 0"
    "dateNow < u"
  shows "getTimeUntilAlarm tz dateNow s =
    Known (Some (''Snooze: '' @ String_int (ceil_div (u - dateNow) 60000) @ ''m''))"
  using assms by (simp add: getTimeUntilAlarm_def truthy_def Let_def)

lemma ceil_div_bounds:
  "(ceil_div d 60000 - 1) * 60000 < d \<and> d \<le> ceil_div d 60000 * 60000"
proof -
  define q where "q = (- d) div 60000"
  define r where "r = (- d) mod 60000"
  have e: "- d = 60000 * q + r" unfolding q_def r_def by simp
  have r: "0 \<le> r" "r < 60000" unfolding r_def by simp_all
  have c: "ceil_div d 60000 = - q" unfolding ceil_div_def q_def by simp
  show ?thesis unfolding c using e r by simp
qed

lemma formatRemaining_pos:
  assumes d: "0 \<le> d"
  shows "formatRemaining d =
    (if 3600000 \<le> d
     then ''in '' @ String_int (d div 3600000) @ ''h '' @ String_int ((d mod 3600000) div 60000) @ ''m''
     else ''in '' @ String_int (d div 60000) @ ''m'')"
proof -
  have r: "js_rem d (1000 * 60 * 60) = d mod 3600000"
    using d by (cases "d = 0") (simp_all add: js_rem_def)
  have h: "(0 < d div 3600000) = (3600000 \<le> d)"
    using d by (simp add: pos_imp_zdiv_pos_iff)
  have f: "formatRemaining d =
    (if 0 < d div 3600000
     then ''in '' @ String_int (d div 3600000) @ ''h '' @ String_int ((d mod 3600000) div 60000) @ ''m''
     else ''in '' @ String_int ((d mod 3600000) div 60000) @ ''m'')"
    unfolding formatRemaining_def floor_div_def r Let_def by simp
  show ?thesis
  proof (cases "3600000 \<le> d")
    case True
    then show ?thesis unfolding f h by simp
  next
    case False
    then have "d mod 3600000 = d" using d by (simp add: mod_pos_pos_trivial)
    then show ?thesis unfolding f h using False by simp
  qed
qed

lemma nextOccurrence_day:
  assumes hh: "hh < 24" and mm: "mm < 60" and a: "nextOccurrence tz now hh mm a"
  shows "LocalTime tz a div msPerDay =
    LocalTime tz now div msPerDay +
      (if int hh * msPerHour + int mm * msPerMinute \<le> LocalTime tz now mod msPerDay then 1 else 0)"
proof -
  define c where "c = int hh * 3600000 + int mm * 60000"
  define D where "D = (now + tz) div 86400000"
  define r where "r = (now + tz) mod 86400000"
  define a0 where "a0 = ((now + tz) div 86400000) * 86400000 + int hh * 3600000 + int mm * 60000 - tz"
  have c: "0 \<le> c" "c < 86400000" unfolding c_def using hh mm by simp_all
  have n: "now = 86400000 * D + r - tz" unfolding D_def r_def by simp
  have a0: "a0 = 86400000 * D + c - tz" unfolding a0_def D_def c_def by simp
  have "nextOccurrence tz now hh mm (if a0 \<le> now then a0 + 86400000 else a0)"
    unfolding a0_def using hh mm by (rule code_nextOccurrence)
  then have aa: "a = (if a0 \<le> now then a0 + 86400000 else a0)"
    using a by (rule nextOccurrence_unique [rotated])
  have le: "(a0 \<le> now) = (c \<le> r)" unfolding a0 n by simp
  have d0: "(a0 + tz) div 86400000 = D"
  proof -
    have "(a0 + tz) div 86400000 = (c + D * 86400000) div 86400000" unfolding a0 by (simp add: ac_simps)
    also have "\<dots> = D + c div 86400000" by (rule div_mult_self1) simp
    finally show ?thesis using c by (simp add: div_pos_pos_trivial)
  qed
  have d1: "(a0 + 86400000 + tz) div 86400000 = D + 1"
  proof -
    have "(a0 + 86400000 + tz) div 86400000 = (c + (D + 1) * 86400000) div 86400000"
      unfolding a0 by (simp add: algebra_simps)
    also have "\<dots> = (D + 1) + c div 86400000" by (rule div_mult_self1) simp
    finally show ?thesis using c by (simp add: div_pos_pos_trivial)
  qed
  show ?thesis
  proof (cases "a0 \<le> now")
    case True
    then have "a = a0 + 86400000" "c \<le> r" using aa le by simp_all
    then show ?thesis
      unfolding LocalTime_def msPerDay_def msPerHour_def msPerMinute_def
      using d1 by (simp add: D_def r_def c_def)
  next
    case False
    then have "a = a0" "\<not> c \<le> r" using aa le by simp_all
    then show ?thesis
      unfolding LocalTime_def msPerDay_def msPerHour_def msPerMinute_def
      using d0 by (simp add: D_def r_def c_def)
  qed
qed

lemma nextOccurrence_pos: "nextOccurrence tz now hh mm a \<Longrightarrow> 0 \<le> a - now"
  by (simp add: nextOccurrence_def)

lemma formatRemaining_in: "\<exists>r. formatRemaining d = ''in '' @ r"
  by (simp add: formatRemaining_def Let_def)

lemma getTimeUntilAlarm_disabled:
  "\<not> enabled (alarm s) \<Longrightarrow> getTimeUntilAlarm tz dateNow s = Known None"
  by (simp add: getTimeUntilAlarm_def)

lemma getTimeUntilAlarm_expired:
  assumes "\<not> (snoozed (alarm s) \<and> (\<exists>u. snoozeUntil (alarm s) = Some u \<and> u \<noteq> 0 \<and> dateNow < u))"
  shows "getTimeUntilAlarm tz dateNow s =
    getTimeUntilAlarm tz dateNow (s\<lparr>alarm := (alarm s)\<lparr>snoozed := False, snoozeUntil := None\<rparr>\<rparr>)"
proof (cases "snoozed (alarm s)")
  case False
  then show ?thesis by (simp add: getTimeUntilAlarm_def Let_def truthy_def)
next
  case sn: True
  show ?thesis
  proof (cases "snoozeUntil (alarm s)")
    case None
    then show ?thesis using sn by (simp add: getTimeUntilAlarm_def Let_def truthy_def)
  next
    case (Some u)
    show ?thesis
    proof (cases "u = 0")
      case True
      then show ?thesis using sn Some by (simp add: getTimeUntilAlarm_def Let_def truthy_def)
    next
      case False
      with assms sn Some have "\<not> dateNow < u" by simp
      then show ?thesis using sn Some False
        by (simp add: getTimeUntilAlarm_def Let_def truthy_def)
    qed
  qed
qed

lemma getTimeUntilAlarm_unsnoozed_shape:
  assumes "\<not> snoozed (alarm s)"
  shows "getTimeUntilAlarm tz dateNow s = Known None \<or> getTimeUntilAlarm tz dateNow s = Outside \<or>
    (\<exists>r. getTimeUntilAlarm tz dateNow s = Known (Some (''in '' @ r)))"
proof (cases "enabled (alarm s)")
  case False
  then show ?thesis by (simp add: getTimeUntilAlarm_def)
next
  case True
  define parts where "parts = map Number_str (split CHR '':'' (time (alarm s)))"
  define d0 where "d0 = setHours tz (currentTime s)
     (case parts of [] \<Rightarrow> NaN | h # x \<Rightarrow> h) (case parts of h # m # x \<Rightarrow> m | _ \<Rightarrow> NaN)"
  define d where "d = (case d0 of Num a \<Rightarrow> if a \<le> currentTime s then Num (setDate_next a) else Num a
                         | d \<Rightarrow> d)"
  have g: "getTimeUntilAlarm tz dateNow s =
    (case d of Unmodelled \<Rightarrow> Outside | NaN \<Rightarrow> Known (Some ''in NaNm'')
       | Num a \<Rightarrow> Known (Some (formatRemaining (a - currentTime s))))"
    using True assms by (simp add: getTimeUntilAlarm_def Let_def d_def d0_def parts_def)
  show ?thesis
  proof (cases d)
    case (Num a)
    obtain r where "formatRemaining (a - currentTime s) = ''in '' @ r"
      using formatRemaining_in by blast
    then show ?thesis unfolding g using Num by simp
  next
    case NaN
    then show ?thesis unfolding g by simp
  next
    case Unmodelled
    then show ?thesis unfolding g by simp
  qed
qed

lemma getTimeUntilAlarm_not_Snooze:
  assumes "\<not> (snoozed (alarm s) \<and> (\<exists>u. snoozeUntil (alarm s) = Some u \<and> u \<noteq> 0 \<and> dateNow < u))"
  shows "getTimeUntilAlarm tz dateNow s \<noteq> Known (Some (''Snooze: '' @ r))"
proof -
  let ?s = "s\<lparr>alarm := (alarm s)\<lparr>snoozed := False, snoozeUntil := None\<rparr>\<rparr>"
  have e: "getTimeUntilAlarm tz dateNow s = getTimeUntilAlarm tz dateNow ?s"
    using assms by (rule getTimeUntilAlarm_expired)
  have "\<not> snoozed (alarm ?s)" by simp
  from getTimeUntilAlarm_unsnoozed_shape [OF this, of tz dateNow]
  show ?thesis unfolding e by auto
qed

text \<open>
  C8. \<^verbatim>\<open>getTimeUntilAlarm\<close> is a function of the alarm fields, the stored current time
  and \<^verbatim>\<open>Date.now()\<close>; it calls no setter, so its model returns a text and no state. It
  returns \<^verbatim>\<open>null\<close> when the alarm is disabled. When the alarm is enabled and snoozed
  with \<open>snoozeUntil\<close> after \<^verbatim>\<open>Date.now()\<close>, it returns \<^verbatim>\<open>Snooze: Nm\<close> with \<open>N\<close> the
  ceiling of the remaining milliseconds over 60000. Otherwise, for a well-formed time
  \<open>HH:MM\<close>, the text gives the hours and minutes from the current time to the next
  future occurrence of the local time \<open>HH:MM:00.000\<close>; that occurrence exists, and it
  lies on the next local day exactly when the time of day has been reached or passed
  today.
\<close>

theorem time_remaining_query:
  "(\<not> enabled (alarm s) \<longrightarrow> getTimeUntilAlarm tz dateNow s = Known None)
   \<and> (enabled (alarm s) \<and> snoozed (alarm s) \<and> snoozeUntil (alarm s) = Some u \<and> u \<noteq> 0 \<and>
       dateNow < u \<longrightarrow>
        getTimeUntilAlarm tz dateNow s =
          Known (Some (''Snooze: '' @ String_int (ceil_div (u - dateNow) 60000) @ ''m'')) \<and>
        (ceil_div (u - dateNow) 60000 - 1) * 60000 < u - dateNow \<and>
        u - dateNow \<le> ceil_div (u - dateNow) 60000 * 60000)
   \<and> (enabled (alarm s) \<and>
       \<not> (snoozed (alarm s) \<and> (\<exists>v. snoozeUntil (alarm s) = Some v \<and> v \<noteq> 0 \<and> dateNow < v)) \<and>
       time (alarm s) = HHMM hh mm \<and> hh < 24 \<and> mm < 60 \<longrightarrow>
        (\<exists>a. nextOccurrence tz (currentTime s) hh mm a) \<and>
        (\<forall>a. nextOccurrence tz (currentTime s) hh mm a \<longrightarrow>
           getTimeUntilAlarm tz dateNow s =
             Known (Some
               (if 3600000 \<le> a - currentTime s
                then ''in '' @ String_int ((a - currentTime s) div 3600000) @ ''h '' @
                     String_int (((a - currentTime s) mod 3600000) div 60000) @ ''m''
                else ''in '' @ String_int ((a - currentTime s) div 60000) @ ''m'')) \<and>
           LocalTime tz a div msPerDay =
             LocalTime tz (currentTime s) div msPerDay +
               (if int hh * msPerHour + int mm * msPerMinute
                     \<le> LocalTime tz (currentTime s) mod msPerDay
                then 1 else 0)))"
proof (intro conjI impI allI)
  assume "\<not> enabled (alarm s)"
  then show "getTimeUntilAlarm tz dateNow s = Known None" by (rule getTimeUntilAlarm_disabled)
next
  assume "enabled (alarm s) \<and> snoozed (alarm s) \<and> snoozeUntil (alarm s) = Some u \<and> u \<noteq> 0 \<and>
       dateNow < u"
  then show "getTimeUntilAlarm tz dateNow s =
          Known (Some (''Snooze: '' @ String_int (ceil_div (u - dateNow) 60000) @ ''m''))"
    by (intro getTimeUntilAlarm_snoozed) simp_all
next
  show "(ceil_div (u - dateNow) 60000 - 1) * 60000 < u - dateNow"
    using ceil_div_bounds [of "u - dateNow"] by blast
next
  show "u - dateNow \<le> ceil_div (u - dateNow) 60000 * 60000"
    using ceil_div_bounds [of "u - dateNow"] by blast
next
  assume h: "enabled (alarm s) \<and>
       \<not> (snoozed (alarm s) \<and> (\<exists>v. snoozeUntil (alarm s) = Some v \<and> v \<noteq> 0 \<and> dateNow < v)) \<and>
       time (alarm s) = HHMM hh mm \<and> hh < 24 \<and> mm < 60"
  then have "hh < 24" "mm < 60" by simp_all
  from code_nextOccurrence [OF this, where now = "currentTime s" and tz = tz]
  show "\<exists>a. nextOccurrence tz (currentTime s) hh mm a" by blast
next
  fix a
  assume h: "enabled (alarm s) \<and>
       \<not> (snoozed (alarm s) \<and> (\<exists>v. snoozeUntil (alarm s) = Some v \<and> v \<noteq> 0 \<and> dateNow < v)) \<and>
       time (alarm s) = HHMM hh mm \<and> hh < 24 \<and> mm < 60"
    and a: "nextOccurrence tz (currentTime s) hh mm a"
  have "getTimeUntilAlarm tz dateNow s = Known (Some (formatRemaining (a - currentTime s)))"
    using h a by (intro getTimeUntilAlarm_unsnoozed [where hh = hh and mm = mm]) simp_all
  then show "getTimeUntilAlarm tz dateNow s =
             Known (Some
               (if 3600000 \<le> a - currentTime s
                then ''in '' @ String_int ((a - currentTime s) div 3600000) @ ''h '' @
                     String_int (((a - currentTime s) mod 3600000) div 60000) @ ''m''
                else ''in '' @ String_int ((a - currentTime s) div 60000) @ ''m''))"
    using formatRemaining_pos [OF nextOccurrence_pos [OF a]] by simp
next
  fix a
  assume h: "enabled (alarm s) \<and>
       \<not> (snoozed (alarm s) \<and> (\<exists>v. snoozeUntil (alarm s) = Some v \<and> v \<noteq> 0 \<and> dateNow < v)) \<and>
       time (alarm s) = HHMM hh mm \<and> hh < 24 \<and> mm < 60"
    and a: "nextOccurrence tz (currentTime s) hh mm a"
  from h have "hh < 24" "mm < 60" by simp_all
  then show "LocalTime tz a div msPerDay =
             LocalTime tz (currentTime s) div msPerDay +
               (if int hh * msPerHour + int mm * msPerMinute
                     \<le> LocalTime tz (currentTime s) mod msPerDay
                then 1 else 0)"
    using a by (rule nextOccurrence_day)
qed

lemma HHMM_7_0: "HHMM 7 0 = ''07:00''"
  by (simp add: HHMM_def digit_char_simps)

lemma nextOccurrence_example_today: "nextOccurrence 0 0 7 0 25200000"
  by (simp add: nextOccurrence_def getHours_def getMinutes_def getSeconds_def getMilliseconds_def
      LocalTime_def msPerDay_def msPerHour_def msPerMinute_def msPerSecond_def)

lemma nextOccurrence_example_tomorrow: "nextOccurrence 0 25200000 7 0 111600000"
  by (simp add: nextOccurrence_def getHours_def getMinutes_def getSeconds_def getMilliseconds_def
      LocalTime_def msPerDay_def msPerHour_def msPerMinute_def msPerSecond_def)

lemma String_int_examples:
  "String_int 7 = ''7''" "String_int 0 = ''0''" "String_int 24 = ''24''" "String_int 2 = ''2''"
  "String_int 59 = ''59''"
  by code_simp+

theorem time_remaining_query_witness:
  "getTimeUntilAlarm 0 0 (handleDismiss armed_at_7) = Known None \<and>
   getTimeUntilAlarm 0 25205000 (handleSnooze 25205000 ringing_at_7) = Known (Some ''Snooze: 5m'') \<and>
   getTimeUntilAlarm 0 0 (armed_at_7\<lparr>currentTime := 0\<rparr>) = Known (Some ''in 7h 0m'') \<and>
   getTimeUntilAlarm 0 0 armed_at_7 = Known (Some ''in 24h 0m'')"
proof -
  have d: "getTimeUntilAlarm 0 0 (handleDismiss armed_at_7) = Known None"
    using time_remaining_query [of "handleDismiss armed_at_7" 0 0 0 0 0]
    by (simp add: handleDismiss_eq armed_at_7_def)
  have c: "ceil_div 300000 60000 = 5" by (simp add: ceil_div_def)
  have z: "getTimeUntilAlarm 0 25205000 (handleSnooze 25205000 ringing_at_7) =
      Known (Some ''Snooze: 5m'')"
    using time_remaining_query [of "handleSnooze 25205000 ringing_at_7" 0 25205000 25505000 0 0]
    by (simp add: handleSnooze_eq ringing_at_7_def SNOOZE_DURATION_def c)
      (simp add: String_int_def string_of_nat_small digit_char_simps)
  have t: "getTimeUntilAlarm 0 0 (armed_at_7\<lparr>currentTime := 0\<rparr>) = Known (Some ''in 7h 0m'')"
    using time_remaining_query [of "armed_at_7\<lparr>currentTime := 0\<rparr>" 0 0 0 7 0]
      nextOccurrence_example_today
    by (simp add: armed_at_7_def HHMM_7_0 String_int_examples)
  have r: "getTimeUntilAlarm 0 0 armed_at_7 = Known (Some ''in 24h 0m'')"
    using time_remaining_query [of armed_at_7 0 0 0 7 0] nextOccurrence_example_tomorrow
    by (simp add: armed_at_7_def HHMM_7_0 String_int_examples)
  from d z t r show ?thesis by simp
qed

text \<open>
  C10. The text starts with \<^verbatim>\<open>Snooze: \<close> exactly when the alarm is enabled, snoozed
  and \<open>snoozeUntil\<close> lies strictly after \<^verbatim>\<open>Date.now()\<close>. A state still marked
  snoozed whose \<open>snoozeUntil\<close> has passed gets the text of the same state without the
  snooze. When less than one hour remains to the next occurrence the text is
  \<^verbatim>\<open>in Mm\<close>, without an hours part; from one hour on it is \<^verbatim>\<open>in Hh Mm\<close>.
\<close>

theorem time_remaining_snooze_expired_and_short:
  "(\<exists>r. getTimeUntilAlarm tz dateNow s = Known (Some (''Snooze: '' @ r))) =
     (enabled (alarm s) \<and> snoozed (alarm s) \<and>
      (\<exists>u. snoozeUntil (alarm s) = Some u \<and> u \<noteq> 0 \<and> dateNow < u))
   \<and> (snoozed (alarm s) \<and> snoozeUntil (alarm s) = Some u \<and> u \<le> dateNow \<longrightarrow>
        getTimeUntilAlarm tz dateNow s =
          getTimeUntilAlarm tz dateNow
            (s\<lparr>alarm := (alarm s)\<lparr>snoozed := False, snoozeUntil := None\<rparr>\<rparr>))
   \<and> (enabled (alarm s) \<and>
       \<not> (snoozed (alarm s) \<and> (\<exists>v. snoozeUntil (alarm s) = Some v \<and> v \<noteq> 0 \<and> dateNow < v)) \<and>
       time (alarm s) = HHMM hh mm \<and> hh < 24 \<and> mm < 60 \<and>
       nextOccurrence tz (currentTime s) hh mm a \<longrightarrow>
        (a - currentTime s < 3600000 \<longrightarrow>
           getTimeUntilAlarm tz dateNow s =
             Known (Some (''in '' @ String_int ((a - currentTime s) div 60000) @ ''m''))) \<and>
        (3600000 \<le> a - currentTime s \<longrightarrow>
           getTimeUntilAlarm tz dateNow s =
             Known (Some (''in '' @ String_int ((a - currentTime s) div 3600000) @ ''h '' @
                          String_int (((a - currentTime s) mod 3600000) div 60000) @ ''m''))))"
proof (intro conjI impI)
  show "(\<exists>r. getTimeUntilAlarm tz dateNow s = Known (Some (''Snooze: '' @ r))) =
     (enabled (alarm s) \<and> snoozed (alarm s) \<and>
      (\<exists>u. snoozeUntil (alarm s) = Some u \<and> u \<noteq> 0 \<and> dateNow < u))"
  proof
    assume l: "\<exists>r. getTimeUntilAlarm tz dateNow s = Known (Some (''Snooze: '' @ r))"
    then have "enabled (alarm s)"
      using getTimeUntilAlarm_disabled [of s tz dateNow] by (cases "enabled (alarm s)") auto
    moreover have "snoozed (alarm s) \<and> (\<exists>u. snoozeUntil (alarm s) = Some u \<and> u \<noteq> 0 \<and> dateNow < u)"
      using l getTimeUntilAlarm_not_Snooze [of s dateNow tz] by blast
    ultimately show "enabled (alarm s) \<and> snoozed (alarm s) \<and>
      (\<exists>u. snoozeUntil (alarm s) = Some u \<and> u \<noteq> 0 \<and> dateNow < u)" by simp
  next
    assume "enabled (alarm s) \<and> snoozed (alarm s) \<and>
      (\<exists>u. snoozeUntil (alarm s) = Some u \<and> u \<noteq> 0 \<and> dateNow < u)"
    then obtain u where "enabled (alarm s)" "snoozed (alarm s)" "snoozeUntil (alarm s) = Some u"
      "u \<noteq> 0" "dateNow < u" by blast
    from getTimeUntilAlarm_snoozed [OF this, of tz]
    show "\<exists>r. getTimeUntilAlarm tz dateNow s = Known (Some (''Snooze: '' @ r))" by blast
  qed
next
  assume "snoozed (alarm s) \<and> snoozeUntil (alarm s) = Some u \<and> u \<le> dateNow"
  then have "\<not> (snoozed (alarm s) \<and> (\<exists>v. snoozeUntil (alarm s) = Some v \<and> v \<noteq> 0 \<and> dateNow < v))"
    by auto
  then show "getTimeUntilAlarm tz dateNow s =
          getTimeUntilAlarm tz dateNow
            (s\<lparr>alarm := (alarm s)\<lparr>snoozed := False, snoozeUntil := None\<rparr>\<rparr>)"
    by (rule getTimeUntilAlarm_expired)
next
  assume h: "enabled (alarm s) \<and>
       \<not> (snoozed (alarm s) \<and> (\<exists>v. snoozeUntil (alarm s) = Some v \<and> v \<noteq> 0 \<and> dateNow < v)) \<and>
       time (alarm s) = HHMM hh mm \<and> hh < 24 \<and> mm < 60 \<and>
       nextOccurrence tz (currentTime s) hh mm a"
    and lt: "a - currentTime s < 3600000"
  have "getTimeUntilAlarm tz dateNow s = Known (Some (formatRemaining (a - currentTime s)))"
    using h by (intro getTimeUntilAlarm_unsnoozed [where hh = hh and mm = mm]) simp_all
  moreover have "0 \<le> a - currentTime s" using h by (intro nextOccurrence_pos [of tz _ hh mm]) simp
  ultimately show "getTimeUntilAlarm tz dateNow s =
             Known (Some (''in '' @ String_int ((a - currentTime s) div 60000) @ ''m''))"
    using lt by (simp add: formatRemaining_pos)
next
  assume h: "enabled (alarm s) \<and>
       \<not> (snoozed (alarm s) \<and> (\<exists>v. snoozeUntil (alarm s) = Some v \<and> v \<noteq> 0 \<and> dateNow < v)) \<and>
       time (alarm s) = HHMM hh mm \<and> hh < 24 \<and> mm < 60 \<and>
       nextOccurrence tz (currentTime s) hh mm a"
    and ge: "3600000 \<le> a - currentTime s"
  have "getTimeUntilAlarm tz dateNow s = Known (Some (formatRemaining (a - currentTime s)))"
    using h by (intro getTimeUntilAlarm_unsnoozed [where hh = hh and mm = mm]) simp_all
  moreover have "0 \<le> a - currentTime s" using h by (intro nextOccurrence_pos [of tz _ hh mm]) simp
  ultimately show "getTimeUntilAlarm tz dateNow s =
             Known (Some (''in '' @ String_int ((a - currentTime s) div 3600000) @ ''h '' @
                          String_int (((a - currentTime s) mod 3600000) div 60000) @ ''m''))"
    using ge by (simp add: formatRemaining_pos)
qed

lemma nextOccurrence_example_soon: "nextOccurrence 0 21660000 7 0 25200000"
  by (simp add: nextOccurrence_def getHours_def getMinutes_def getSeconds_def getMilliseconds_def
      LocalTime_def msPerDay_def msPerHour_def msPerMinute_def msPerSecond_def)

theorem time_remaining_snooze_expired_and_short_witness:
  "getTimeUntilAlarm 0 25505000 ((handleSnooze 25205000 ringing_at_7)\<lparr>currentTime := 21660000\<rparr>) =
     Known (Some ''in 59m'') \<and>
   getTimeUntilAlarm 0 0 (armed_at_7\<lparr>currentTime := 0\<rparr>) = Known (Some ''in 7h 0m'') \<and>
   (\<exists>r. getTimeUntilAlarm 0 25504999 (handleSnooze 25205000 ringing_at_7) =
      Known (Some (''Snooze: '' @ r)))"
proof -
  let ?z = "(handleSnooze 25205000 ringing_at_7)\<lparr>currentTime := 21660000\<rparr>"
  have z: "?z = \<lparr>currentTime = 21660000,
      alarm = \<lparr>time = ''07:00'', enabled = True, snoozed = True, snoozeUntil = Some 25505000\<rparr>,
      isRinging = False, audioContextRef = None, oscillatorRef = None, gainRef = None\<rparr>"
    by (simp add: handleSnooze_eq ringing_at_7_def SNOOZE_DURATION_def)
  have e: "getTimeUntilAlarm 0 25505000 ?z = Known (Some ''in 59m'')"
    unfolding z
    using time_remaining_snooze_expired_and_short
      [of 0 25505000 "\<lparr>currentTime = 21660000,
      alarm = \<lparr>time = ''07:00'', enabled = True, snoozed = True, snoozeUntil = Some 25505000\<rparr>,
      isRinging = False, audioContextRef = None, oscillatorRef = None, gainRef = None\<rparr>"
        25505000 7 0 25200000, THEN conjunct2, THEN conjunct2]
      nextOccurrence_example_soon
    by (simp add: HHMM_7_0 String_int_examples)
  have t: "getTimeUntilAlarm 0 0 (armed_at_7\<lparr>currentTime := 0\<rparr>) = Known (Some ''in 7h 0m'')"
    using time_remaining_snooze_expired_and_short [of 0 0 "armed_at_7\<lparr>currentTime := 0\<rparr>" 0 7 0 25200000]
      nextOccurrence_example_today
    by (simp add: armed_at_7_def HHMM_7_0 String_int_examples)
  have s: "\<exists>r. getTimeUntilAlarm 0 25504999 (handleSnooze 25205000 ringing_at_7) =
      Known (Some (''Snooze: '' @ r))"
    using time_remaining_snooze_expired_and_short
      [of 0 25504999 "handleSnooze 25205000 ringing_at_7" 0 0 0 0]
    by (simp add: handleSnooze_eq ringing_at_7_def SNOOZE_DURATION_def)
  from e t s show ?thesis by simp
qed

subsection \<open>Scanning what stringify wrote\<close>


lemma hex_val_hex_char: "d < 16 \<Longrightarrow> hex_val (hex_char d) = Some d"
  by (auto simp add: hex_val_def hex_char_def Let_def)

lemma lex_Cons_Go:
  "step_lex m c = Go m' out \<Longrightarrow>
   lex m (c # rest) =
     (case lex m' rest of Tokens ts \<Rightarrow> Tokens (out @ ts) | LexError \<Rightarrow> LexError
      | LexOutside \<Rightarrow> LexOutside)"
  by (simp add: lex.simps)

lemma step_InString_plain:
  "c \<noteq> dquote \<Longrightarrow> c \<noteq> backslash \<Longrightarrow> \<not> (of_char c :: nat) < 32 \<Longrightarrow>
   step_lex (InString acc) c = Go (InString (c # acc)) []"
  by (simp add: step_lex_def)

lemma lexres_case_id:
  "(case r of Tokens ts \<Rightarrow> Tokens ([] @ ts) | LexError \<Rightarrow> LexError | LexOutside \<Rightarrow> LexOutside) = r"
  by (cases r) simp_all

lemma lex_InString_plain:
  "c \<noteq> dquote \<Longrightarrow> c \<noteq> backslash \<Longrightarrow> \<not> (of_char c :: nat) < 32 \<Longrightarrow>
   lex (InString acc) (c # rest) = lex (InString (c # acc)) rest"
  by (simp add: lex_Cons_Go [OF step_InString_plain] lexres_case_id)

lemma lex_short_escape:
  assumes "step_lex (Esc acc) e = Go (InString (c # acc)) []"
  shows "lex (InString acc) (backslash # e # rest) = lex (InString (c # acc)) rest"
proof -
  have "step_lex (InString acc) backslash = Go (Esc acc) []"
    by (simp add: step_lex_def dquote_def backslash_def)
  then have "lex (InString acc) (backslash # e # rest) = lex (Esc acc) (e # rest)"
    by (simp add: lex_Cons_Go lexres_case_id)
  also have "\<dots> = lex (InString (c # acc)) rest"
    using assms by (simp add: lex_Cons_Go lexres_case_id)
  finally show ?thesis .
qed

lemma lex_unicode_escape:
  assumes n: "(of_char c :: nat) < 32"
  shows "lex (InString acc)
           (backslash # CHR ''u'' # CHR ''0'' # CHR ''0'' #
            hex_char ((of_char c :: nat) div 16) # hex_char ((of_char c :: nat) mod 16) # rest) =
         lex (InString (c # acc)) rest"
proof -
  let ?n = "of_char c :: nat"
  have h1: "hex_val (hex_char (?n div 16)) = Some (?n div 16)"
    using n by (intro hex_val_hex_char) simp
  have h2: "hex_val (hex_char (?n mod 16)) = Some (?n mod 16)"
    by (intro hex_val_hex_char) simp
  have z: "hex_val CHR ''0'' = Some 0" by (simp add: hex_val_def)
  have s1: "step_lex (InString acc) backslash = Go (Esc acc) []"
    by (simp add: step_lex_def dquote_def backslash_def)
  have s2: "step_lex (Esc acc) CHR ''u'' = Go (Uni acc []) []"
    by (simp add: step_lex_def dquote_def backslash_def)
  have s3: "step_lex (Uni acc []) CHR ''0'' = Go (Uni acc [0]) []"
    by (simp add: step_lex_def z)
  have s4: "step_lex (Uni acc [0]) CHR ''0'' = Go (Uni acc [0, 0]) []"
    by (simp add: step_lex_def z)
  have s5: "step_lex (Uni acc [0, 0]) (hex_char (?n div 16)) = Go (Uni acc [0, 0, ?n div 16]) []"
    by (simp add: step_lex_def h1)
  have v: "16 * (?n div 16) + ?n mod 16 = ?n" by simp
  have s6: "step_lex (Uni acc [0, 0, ?n div 16]) (hex_char (?n mod 16)) = Go (InString (c # acc)) []"
    using n by (simp add: step_lex_def h2 v)
  show ?thesis
    by (simp only: lex_Cons_Go [OF s1] lex_Cons_Go [OF s2] lex_Cons_Go [OF s3] lex_Cons_Go [OF s4]
        lex_Cons_Go [OF s5] lex_Cons_Go [OF s6] lexres_case_id)
qed

lemma lex_escape_char:
  "lex (InString acc) (escape_char c @ rest) = lex (InString (c # acc)) rest"
proof -
  consider (b) "c = CHR 0x08" | (t) "c = CHR 0x09" | (n) "c = CHR 0x0A" | (f) "c = CHR 0x0C"
    | (r) "c = CHR 0x0D" | (q) "c = dquote" | (s) "c = backslash"
    | (u) "c \<noteq> CHR 0x08" "c \<noteq> CHR 0x09" "c \<noteq> CHR 0x0A" "c \<noteq> CHR 0x0C" "c \<noteq> CHR 0x0D"
        "c \<noteq> dquote" "c \<noteq> backslash" "(of_char c :: nat) < 32"
    | (p) "c \<noteq> CHR 0x08" "c \<noteq> CHR 0x09" "c \<noteq> CHR 0x0A" "c \<noteq> CHR 0x0C" "c \<noteq> CHR 0x0D"
        "c \<noteq> dquote" "c \<noteq> backslash" "\<not> (of_char c :: nat) < 32"
    by blast
  then show ?thesis
  proof cases
    case b
    have "step_lex (Esc acc) CHR ''b'' = Go (InString (CHR 0x08 # acc)) []"
      by (simp add: step_lex_def dquote_def backslash_def)
    from lex_short_escape [OF this] show ?thesis using b by (simp add: escape_char_def)
  next
    case t
    have "step_lex (Esc acc) CHR ''t'' = Go (InString (CHR 0x09 # acc)) []"
      by (simp add: step_lex_def dquote_def backslash_def)
    from lex_short_escape [OF this] show ?thesis using t by (simp add: escape_char_def)
  next
    case n
    have "step_lex (Esc acc) CHR ''n'' = Go (InString (CHR 0x0A # acc)) []"
      by (simp add: step_lex_def dquote_def backslash_def)
    from lex_short_escape [OF this] show ?thesis using n by (simp add: escape_char_def)
  next
    case f
    have "step_lex (Esc acc) CHR ''f'' = Go (InString (CHR 0x0C # acc)) []"
      by (simp add: step_lex_def dquote_def backslash_def)
    from lex_short_escape [OF this] show ?thesis using f by (simp add: escape_char_def)
  next
    case r
    have "step_lex (Esc acc) CHR ''r'' = Go (InString (CHR 0x0D # acc)) []"
      by (simp add: step_lex_def dquote_def backslash_def)
    from lex_short_escape [OF this] show ?thesis using r by (simp add: escape_char_def)
  next
    case q
    have "step_lex (Esc acc) dquote = Go (InString (dquote # acc)) []"
      by (simp add: step_lex_def)
    from lex_short_escape [OF this] show ?thesis using q
      by (simp add: escape_char_def dquote_def)
  next
    case s
    have "step_lex (Esc acc) backslash = Go (InString (backslash # acc)) []"
      by (simp add: step_lex_def dquote_def backslash_def)
    from lex_short_escape [OF this] show ?thesis using s
      by (simp add: escape_char_def dquote_def backslash_def)
  next
    case u
    then show ?thesis using lex_unicode_escape [of c acc rest] by (simp add: escape_char_def)
  next
    case p
    then show ?thesis using lex_InString_plain [of c acc rest] by (simp add: escape_char_def)
  qed
qed

lemma lex_string_body:
  "lex (InString acc) (concat (map escape_char t) @ dquote # rest) =
     (case lex Top rest of Tokens ts \<Rightarrow> Tokens (TString (rev acc @ t) # ts)
      | LexError \<Rightarrow> LexError | LexOutside \<Rightarrow> LexOutside)"
proof (induction t arbitrary: acc)
  case Nil
  have "step_lex (InString acc) dquote = Go Top [TString (rev acc)]" by (simp add: step_lex_def)
  from lex_Cons_Go [OF this, of rest] show ?case by (cases "lex Top rest") simp_all
next
  case (Cons c t)
  have "lex (InString acc) (concat (map escape_char (c # t)) @ dquote # rest) =
        lex (InString acc) (escape_char c @ (concat (map escape_char t) @ dquote # rest))"
    by simp
  also have "\<dots> = lex (InString (c # acc)) (concat (map escape_char t) @ dquote # rest)"
    by (rule lex_escape_char)
  finally show ?case by (cases "lex Top rest") (simp_all add: Cons.IH)
qed

lemma lex_quote:
  "lex Top (quote t @ rest) =
     (case lex Top rest of Tokens ts \<Rightarrow> Tokens (TString t # ts)
      | LexError \<Rightarrow> LexError | LexOutside \<Rightarrow> LexOutside)"
proof -
  have "step_lex Top dquote = Go (InString []) []"
    by (simp add: step_lex_def step_top_def is_ws_def dquote_def)
  from lex_Cons_Go [OF this, of "concat (map escape_char t) @ dquote # rest"]
  show ?thesis by (cases "lex Top rest") (simp_all add: quote_def lex_string_body)
qed

lemma lex_save:
  "lex Top (save a) =
     Tokens [TLBrace, TString ''time'', TColon, TString (time a), TComma,
             TString ''enabled'', TColon, (if enabled a then TTrue else TFalse), TRBrace]"
proof -
  have tt: "lex Top '':true}'' = Tokens [TColon, TTrue, TRBrace]" by code_simp
  have tf: "lex Top '':false}'' = Tokens [TColon, TFalse, TRBrace]" by code_simp
  have lit: "lex Top ('':'' @ (if enabled a then ''true'' else ''false'') @ ''}'') =
      Tokens [TColon, (if enabled a then TTrue else TFalse), TRBrace]"
    using tt tf by simp
  have en: "lex Top (quote ''enabled'' @ '':'' @ (if enabled a then ''true'' else ''false'') @ ''}'') =
      Tokens [TString ''enabled'', TColon, (if enabled a then TTrue else TFalse), TRBrace]"
    by (simp only: lex_quote lit lexres.case)
  have comma: "step_lex Top CHR '','' = Go Top [TComma]"
    by (simp add: step_lex_def step_top_def is_ws_def)
  have colon: "step_lex Top CHR '':'' = Go Top [TColon]"
    by (simp add: step_lex_def step_top_def is_ws_def)
  have brace: "step_lex Top CHR ''{'' = Go Top [TLBrace]"
    by (simp add: step_lex_def step_top_def is_ws_def)
  have c1: "lex Top ('','' @ quote ''enabled'' @ '':'' @ (if enabled a then ''true'' else ''false'') @ ''}'') =
      Tokens [TComma, TString ''enabled'', TColon, (if enabled a then TTrue else TFalse), TRBrace]"
    using lex_Cons_Go [OF comma] en by simp
  have tm: "lex Top (quote (time a) @ '','' @ quote ''enabled'' @ '':'' @
        (if enabled a then ''true'' else ''false'') @ ''}'') =
      Tokens [TString (time a), TComma, TString ''enabled'', TColon,
              (if enabled a then TTrue else TFalse), TRBrace]"
    by (simp only: lex_quote c1 lexres.case)
  have c2: "lex Top ('':'' @ quote (time a) @ '','' @ quote ''enabled'' @ '':'' @
        (if enabled a then ''true'' else ''false'') @ ''}'') =
      Tokens [TColon, TString (time a), TComma, TString ''enabled'', TColon,
              (if enabled a then TTrue else TFalse), TRBrace]"
    using lex_Cons_Go [OF colon] tm by simp
  have k: "lex Top (quote ''time'' @ '':'' @ quote (time a) @ '','' @ quote ''enabled'' @ '':'' @
        (if enabled a then ''true'' else ''false'') @ ''}'') =
      Tokens [TString ''time'', TColon, TString (time a), TComma, TString ''enabled'', TColon,
              (if enabled a then TTrue else TFalse), TRBrace]"
    by (simp only: lex_quote c2 lexres.case)
  show ?thesis
    unfolding save_def using lex_Cons_Go [OF brace] k by simp
qed

lemma parse_saved_tokens:
  "parse_tokens (EValue, [])
     [TLBrace, TString ''time'', TColon, TString t, TComma,
      TString ''enabled'', TColon, (if e then TTrue else TFalse), TRBrace] =
   Some (JObject [(''time'', JString t), (''enabled'', JBool e)])"
  by (simp add: pstep_def start_value_def push_value_def take_key_def close_or_comma_def)

lemma JSON_parse_save:
  "JSON_parse (save a) =
     Known (Some (JObject [(''time'', JString (time a)), (''enabled'', JBool (enabled a))]))"
  by (simp only: JSON_parse_def lex_save lexres.case parse_saved_tokens)

lemma save_not_empty: "save a \<noteq> []"
  by (simp add: save_def)

lemma load_save:
  "load (Some (save a)) =
     Known (Inr [(''time'', JString (time a)), (''enabled'', JBool (enabled a)),
                 (''snoozed'', JBool False), (''snoozeUntil'', JNull)])"
  by (simp add: load_def save_not_empty JSON_parse_save spread_def)

lemma as_AlarmState_loaded:
  "as_AlarmState [(''time'', JString t), (''enabled'', JBool e),
                  (''snoozed'', JBool False), (''snoozeUntil'', JNull)] =
     Some \<lparr>time = t, enabled = e, snoozed = False, snoozeUntil = None\<rparr>"
  by (simp add: as_AlarmState_def get_prop_def)

lemma load_returns_cleared:
  assumes "load saved = Known (Inr obj)"
  shows "get_prop obj ''snoozed'' = Some (JBool False) \<and> get_prop obj ''snoozeUntil'' = Some JNull"
proof (cases saved)
  case None
  with assms show ?thesis by (auto simp add: load_def default_alarm_def get_prop_def)
next
  case (Some s)
  show ?thesis
  proof (cases "s = []")
    case True
    with assms Some show ?thesis by (auto simp add: load_def default_alarm_def get_prop_def)
  next
    case False
    with assms Some obtain v where "obj = spread v @ [(''snoozed'', JBool False), (''snoozeUntil'', JNull)]"
      by (auto simp add: load_def split: modelled.splits option.splits)
    then show ?thesis by (simp add: get_prop_def)
  qed
qed

lemma as_AlarmState_cleared:
  assumes "get_prop obj ''snoozed'' = Some (JBool False)" "get_prop obj ''snoozeUntil'' = Some JNull"
    "as_AlarmState obj = Some a"
  shows "snoozed a = False \<and> snoozeUntil a = None \<and>
    get_prop obj ''time'' = Some (JString (time a)) \<and> get_prop obj ''enabled'' = Some (JBool (enabled a))"
  using assms
  by (auto simp add: as_AlarmState_def split: option.splits json.splits)

subsection \<open>Loading\<close>

text \<open>
  C3 as stated fails. The initialiser calls \<^verbatim>\<open>JSON.parse\<close> with no \<^verbatim>\<open>try\<close>: the text
  \<^verbatim>\<open>{bad json\<close> makes it throw. And it copies what it parsed without looking at it:
  a \<open>time\<close> that is a number and an \<open>enabled\<close> that is a string come back as
  they are, not as the defaults.
\<close>

theorem load_does_not_fail_closed_counterexample:
  "load (Some ''{bad json'') = Known (Inl SyntaxError) \<and>
   load (Some wrong_shape_payload) =
     Known (Inr [(''time'', JNumber ''7''), (''enabled'', JString ''yes''),
                 (''snoozed'', JBool False), (''snoozeUntil'', JNull)])"
  by (simp add: wrong_shape_payload_def) code_simp

text \<open>
  C3, amended. \<^verbatim>\<open>load\<close> returns the default configuration (07:00, disabled) when the
  stored text is absent or empty, and the last-saved \<open>time\<close> and \<open>enabled\<close> (with the
  snooze fields cleared) when the text was written by \<^verbatim>\<open>save\<close>. A non-empty text that
  is not JSON makes it throw the \<^verbatim>\<open>SyntaxError\<close> of \<^verbatim>\<open>JSON.parse\<close>; a text that parses
  is returned as parsed, whatever its shape, with \<open>snoozed = false\<close> and
  \<open>snoozeUntil = null\<close> put over it.
\<close>

theorem load_contract:
  "load None = Known (Inr default_alarm)
   \<and> load (Some []) = Known (Inr default_alarm)
   \<and> as_AlarmState default_alarm =
       Some \<lparr>time = ''07:00'', enabled = False, snoozed = False, snoozeUntil = None\<rparr>
   \<and> (s \<noteq> [] \<and> JSON_parse s = Known None \<longrightarrow> load (Some s) = Known (Inl SyntaxError))
   \<and> (s \<noteq> [] \<and> JSON_parse s = Known (Some v) \<longrightarrow>
        load (Some s) =
          Known (Inr (spread v @ [(''snoozed'', JBool False), (''snoozeUntil'', JNull)])))
   \<and> load (Some (save a)) =
        Known (Inr [(''time'', JString (time a)), (''enabled'', JBool (enabled a)),
                    (''snoozed'', JBool False), (''snoozeUntil'', JNull)])
   \<and> as_AlarmState [(''time'', JString (time a)), (''enabled'', JBool (enabled a)),
                     (''snoozed'', JBool False), (''snoozeUntil'', JNull)] =
        Some \<lparr>time = time a, enabled = enabled a, snoozed = False, snoozeUntil = None\<rparr>"
proof (intro conjI impI)
  show "load None = Known (Inr default_alarm)" by (simp add: load_def)
  show "load (Some []) = Known (Inr default_alarm)" by (simp add: load_def)
  show "as_AlarmState default_alarm =
       Some \<lparr>time = ''07:00'', enabled = False, snoozed = False, snoozeUntil = None\<rparr>"
    by (simp add: default_alarm_def as_AlarmState_def get_prop_def)
  show "load (Some (save a)) =
        Known (Inr [(''time'', JString (time a)), (''enabled'', JBool (enabled a)),
                    (''snoozed'', JBool False), (''snoozeUntil'', JNull)])"
    by (rule load_save)
  show "as_AlarmState [(''time'', JString (time a)), (''enabled'', JBool (enabled a)),
                     (''snoozed'', JBool False), (''snoozeUntil'', JNull)] =
        Some \<lparr>time = time a, enabled = enabled a, snoozed = False, snoozeUntil = None\<rparr>"
    by (rule as_AlarmState_loaded)
next
  assume "s \<noteq> [] \<and> JSON_parse s = Known None"
  then show "load (Some s) = Known (Inl SyntaxError)" by (simp add: load_def)
next
  assume "s \<noteq> [] \<and> JSON_parse s = Known (Some v)"
  then show "load (Some s) =
          Known (Inr (spread v @ [(''snoozed'', JBool False), (''snoozeUntil'', JNull)]))"
    by (simp add: load_def)
qed

theorem load_contract_witness:
  "''{bad json'' \<noteq> [] \<and> JSON_parse ''{bad json'' = Known None \<and>
   load (Some ''{bad json'') = Known (Inl SyntaxError) \<and>
   wrong_shape_payload \<noteq> [] \<and>
   load (Some wrong_shape_payload) =
     Known (Inr [(''time'', JNumber ''7''), (''enabled'', JString ''yes''),
                 (''snoozed'', JBool False), (''snoozeUntil'', JNull)])"
proof -
  have p: "JSON_parse ''{bad json'' = Known None" by code_simp
  have q: "JSON_parse wrong_shape_payload =
      Known (Some (JObject [(''time'', JNumber ''7''), (''enabled'', JString ''yes'')]))"
    unfolding wrong_shape_payload_def by code_simp
  have n: "wrong_shape_payload \<noteq> []" by (simp add: wrong_shape_payload_def)
  show ?thesis
    using p q n load_contract [of "''{bad json''" JNull "\<lparr>time = [], enabled = False, snoozed = False, snoozeUntil = None\<rparr>"]
      load_contract [of wrong_shape_payload
        "JObject [(''time'', JNumber ''7''), (''enabled'', JString ''yes'')]"
        "\<lparr>time = [], enabled = False, snoozed = False, snoozeUntil = None\<rparr>"]
    by (simp add: spread_def)
qed

subsection \<open>What is stored\<close>

text \<open>
  C6 as stated fails in its second half: \<^verbatim>\<open>load\<close> does not return a state for every
  stored text. On a text that is not JSON it throws.
\<close>

theorem load_may_not_return_counterexample:
  "load (Some ''not json'') = Known (Inl SyntaxError)"
  by code_simp

text \<open>
  C6, amended. The text that \<^verbatim>\<open>save\<close> writes for a state of type \<^verbatim>\<open>AlarmState\<close> is a
  JSON object with exactly the members \<open>time\<close> and \<open>enabled\<close>, and does not
  depend on \<open>snoozed\<close> or \<open>snoozeUntil\<close>. Whenever \<^verbatim>\<open>load\<close> returns, and it returns
  for an absent, an empty and every parseable text, the state has \<open>snoozed = false\<close>
  and \<open>snoozeUntil = null\<close>; after a save and a reload the alarm has the saved time,
  is enabled exactly if it was saved enabled, and is not snoozed.
\<close>

theorem snooze_fields_never_persisted:
  "JSON_parse (save a) =
     Known (Some (JObject [(''time'', JString (time a)), (''enabled'', JBool (enabled a))]))
   \<and> save (a\<lparr>snoozed := z, snoozeUntil := u\<rparr>) = save a
   \<and> (load saved = Known (Inr obj) \<longrightarrow>
        get_prop obj ''snoozed'' = Some (JBool False) \<and> get_prop obj ''snoozeUntil'' = Some JNull)
   \<and> (saved = None \<or> saved = Some [] \<or> (\<exists>s v. saved = Some s \<and> JSON_parse s = Known (Some v)) \<longrightarrow>
        (\<exists>obj'. load saved = Known (Inr obj')))
   \<and> (\<exists>obj'. load (Some (save a)) = Known (Inr obj') \<and>
        as_AlarmState obj' =
          Some \<lparr>time = time a, enabled = enabled a, snoozed = False, snoozeUntil = None\<rparr>)"
proof (intro conjI impI)
  show "JSON_parse (save a) =
     Known (Some (JObject [(''time'', JString (time a)), (''enabled'', JBool (enabled a))]))"
    by (rule JSON_parse_save)
  show "save (a\<lparr>snoozed := z, snoozeUntil := u\<rparr>) = save a" by (simp add: save_def)
  show "\<exists>obj'. load (Some (save a)) = Known (Inr obj') \<and>
        as_AlarmState obj' =
          Some \<lparr>time = time a, enabled = enabled a, snoozed = False, snoozeUntil = None\<rparr>"
    by (simp add: load_save as_AlarmState_loaded)
next
  assume "load saved = Known (Inr obj)"
  then show "get_prop obj ''snoozed'' = Some (JBool False)" "get_prop obj ''snoozeUntil'' = Some JNull"
    using load_returns_cleared by blast+
next
  assume "saved = None \<or> saved = Some [] \<or> (\<exists>s v. saved = Some s \<and> JSON_parse s = Known (Some v))"
  then show "\<exists>obj'. load saved = Known (Inr obj')"
    by (auto simp add: load_def)
qed

theorem snooze_fields_never_persisted_witness:
  "JSON_parse (save snoozed_alarm) =
     Known (Some (JObject [(''time'', JString ''07:00''), (''enabled'', JBool True)])) \<and>
   load (Some (save snoozed_alarm)) =
     Known (Inr [(''time'', JString ''07:00''), (''enabled'', JBool True),
                 (''snoozed'', JBool False), (''snoozeUntil'', JNull)]) \<and>
   get_prop [(''time'', JString ''07:00''), (''enabled'', JBool True),
             (''snoozed'', JBool False), (''snoozeUntil'', JNull)] ''snoozed'' = Some (JBool False) \<and>
   get_prop [(''time'', JString ''07:00''), (''enabled'', JBool True),
             (''snoozed'', JBool False), (''snoozeUntil'', JNull)] ''snoozeUntil'' = Some JNull"
proof -
  have l: "load (Some (save snoozed_alarm)) =
     Known (Inr [(''time'', JString ''07:00''), (''enabled'', JBool True),
                 (''snoozed'', JBool False), (''snoozeUntil'', JNull)])"
    by (simp add: load_save snoozed_alarm_def)
  show ?thesis
    using l snooze_fields_never_persisted [where a = snoozed_alarm and z = False and u = None
        and saved = "Some (save snoozed_alarm)"
        and obj = "[(''time'', JString ''07:00''), (''enabled'', JBool True),
          (''snoozed'', JBool False), (''snoozeUntil'', JNull)]"]
    by (simp add: snoozed_alarm_def)
qed

subsection \<open>Saving what was loaded\<close>

text \<open>
  C7 as stated fails: a stored object with \<open>enabled\<close> before \<open>time\<close> is accepted
  by \<^verbatim>\<open>load\<close>, and saving the loaded configuration writes the members in the other
  order.
\<close>

theorem resave_changes_bytes_counterexample:
  "load (Some reordered_payload) =
     Known (Inr [(''enabled'', JBool False), (''time'', JString ''07:00''),
                 (''snoozed'', JBool False), (''snoozeUntil'', JNull)]) \<and>
   as_AlarmState [(''enabled'', JBool False), (''time'', JString ''07:00''),
                  (''snoozed'', JBool False), (''snoozeUntil'', JNull)] =
     Some \<lparr>time = ''07:00'', enabled = False, snoozed = False, snoozeUntil = None\<rparr> \<and>
   save \<lparr>time = ''07:00'', enabled = False, snoozed = False, snoozeUntil = None\<rparr> \<noteq>
     reordered_payload"
  by (simp add: reordered_payload_def) code_simp

text \<open>
  C7, amended. For every text that \<^verbatim>\<open>save\<close> wrote, \<^verbatim>\<open>load\<close> accepts it and saving
  the loaded configuration writes the identical text. For any other text that \<^verbatim>\<open>load\<close>
  accepts as an \<^verbatim>\<open>AlarmState\<close>, saving and loading again gives back the same
  configuration.
\<close>

theorem save_load_fixed_point_on_saved_payloads:
  "(\<exists>obj a'. load (Some (save a)) = Known (Inr obj) \<and> as_AlarmState obj = Some a' \<and>
       save a' = save a)
   \<and> (load (Some p) = Known (Inr obj) \<and> as_AlarmState obj = Some b \<longrightarrow>
        (\<exists>obj'. load (Some (save b)) = Known (Inr obj') \<and> as_AlarmState obj' = Some b))"
proof (intro conjI impI)
  have "save \<lparr>time = time a, enabled = enabled a, snoozed = False, snoozeUntil = None\<rparr> = save a"
    by (simp add: save_def)
  then show "\<exists>obj a'. load (Some (save a)) = Known (Inr obj) \<and> as_AlarmState obj = Some a' \<and>
       save a' = save a"
    by (simp add: load_save as_AlarmState_loaded)
next
  assume h: "load (Some p) = Known (Inr obj) \<and> as_AlarmState obj = Some b"
  then have "get_prop obj ''snoozed'' = Some (JBool False) \<and> get_prop obj ''snoozeUntil'' = Some JNull"
    using load_returns_cleared by blast
  with h have "snoozed b = False \<and> snoozeUntil b = None"
    using as_AlarmState_cleared by blast
  then have "\<lparr>time = time b, enabled = enabled b, snoozed = False, snoozeUntil = None\<rparr> = b"
    by (cases b) simp
  then show "\<exists>obj'. load (Some (save b)) = Known (Inr obj') \<and> as_AlarmState obj' = Some b"
    by (simp add: load_save as_AlarmState_loaded)
qed

theorem save_load_fixed_point_on_saved_payloads_witness:
  "load (Some reordered_payload) =
     Known (Inr [(''enabled'', JBool False), (''time'', JString ''07:00''),
                 (''snoozed'', JBool False), (''snoozeUntil'', JNull)]) \<and>
   (\<exists>obj'. load (Some (save \<lparr>time = ''07:00'', enabled = False, snoozed = False, snoozeUntil = None\<rparr>)) =
       Known (Inr obj') \<and>
     as_AlarmState obj' =
       Some \<lparr>time = ''07:00'', enabled = False, snoozed = False, snoozeUntil = None\<rparr>)"
proof -
  have l: "load (Some reordered_payload) =
     Known (Inr [(''enabled'', JBool False), (''time'', JString ''07:00''),
                 (''snoozed'', JBool False), (''snoozeUntil'', JNull)])"
    unfolding reordered_payload_def by code_simp
  have a: "as_AlarmState [(''enabled'', JBool False), (''time'', JString ''07:00''),
                  (''snoozed'', JBool False), (''snoozeUntil'', JNull)] =
     Some \<lparr>time = ''07:00'', enabled = False, snoozed = False, snoozeUntil = None\<rparr>"
    by (simp add: as_AlarmState_def get_prop_def)
  show ?thesis
    using l a save_load_fixed_point_on_saved_payloads
      [of "\<lparr>time = ''07:00'', enabled = False, snoozed = False, snoozeUntil = None\<rparr>"
        reordered_payload
        "[(''enabled'', JBool False), (''time'', JString ''07:00''),
          (''snoozed'', JBool False), (''snoozeUntil'', JNull)]"
        "\<lparr>time = ''07:00'', enabled = False, snoozed = False, snoozeUntil = None\<rparr>"]
    by simp
qed

subsection \<open>Dismiss\<close>

text \<open>
  C5. After \<^verbatim>\<open>handleDismiss\<close>, from any state, the alarm is disabled, both snooze
  fields are cleared, the ringing flag is false and the sound is stopped (the three
  audio refs are null); the configured time and the clock are untouched; and a second
  dismiss gives the state of the first.
\<close>

theorem dismiss_disables_clears_and_is_idempotent:
  "enabled (alarm (handleDismiss s)) = False \<and>
   snoozed (alarm (handleDismiss s)) = False \<and>
   snoozeUntil (alarm (handleDismiss s)) = None \<and>
   isRinging (handleDismiss s) = False \<and>
   audioContextRef (handleDismiss s) = None \<and>
   oscillatorRef (handleDismiss s) = None \<and>
   gainRef (handleDismiss s) = None \<and>
   time (alarm (handleDismiss s)) = time (alarm s) \<and>
   currentTime (handleDismiss s) = currentTime s \<and>
   handleDismiss (handleDismiss s) = handleDismiss s"
  by (simp add: handleDismiss_def stopAlarmSound_def Let_def)

end
